theory Spec2Isabelle
  imports Complex_Main "HOL-Library.Sublist"
begin

unbundle bit_operations_syntax

section \<open>Strings and the Go library functions the program calls\<close>

text \<open>
  A Go string is a sequence of bytes, here a \<open>char list\<close>. The functions of this section
  are those of the Go standard library that \<^verbatim>\<open>prettybench.go\<close> and the benchmark
  parser call on strings and integers, with the library's documented behaviour.
\<close>

abbreviation TAB :: char where "TAB \<equiv> CHR 0x09"
abbreviation LF :: char where "LF \<equiv> CHR 0x0A"

definition is_digit :: "char \<Rightarrow> bool" where
  "is_digit c = (c \<in> set ''0123456789'')"

definition dec_val :: "string \<Rightarrow> nat" where
  \<comment> \<open>value of a string of decimal digits\<close>
  "dec_val s = foldl (\<lambda>n c. 10 * n + (of_char c - 48)) 0 s"

definition ParseUint :: "string \<Rightarrow> nat option" where
  \<comment> \<open>\<^verbatim>\<open>strconv.ParseUint(s, 10, 64)\<close>: no sign, no underscore, at least one digit,
      value below \<open>2^64\<close>; \<open>None\<close> is a non-nil error.\<close>
  "ParseUint s =
     (if s \<noteq> [] \<and> list_all is_digit s \<and> dec_val s < 2 ^ 64 then Some (dec_val s) else None)"

definition Atoi :: "string \<Rightarrow> int option" where
  \<comment> \<open>\<^verbatim>\<open>strconv.Atoi\<close> for a 64-bit \<^verbatim>\<open>int\<close>: optional sign, at least one digit,
      value in \<open>[-2^63, 2^63)\<close>.\<close>
  "Atoi s =
     (let (neg, ds) =
        (case s of
           [] \<Rightarrow> (False, [])
         | c # r \<Rightarrow> if c = CHR ''-'' then (True, r) else if c = CHR ''+'' then (False, r)
                    else (False, s))
      in if ds = [] \<or> \<not> list_all is_digit ds then None
         else if neg then (if int (dec_val ds) \<le> 2 ^ 63 then Some (- int (dec_val ds)) else None)
         else (if int (dec_val ds) < 2 ^ 63 then Some (int (dec_val ds)) else None))"

definition digit_char :: "nat \<Rightarrow> char" where
  \<comment> \<open>the character of a digit below ten\<close>
  "digit_char d = ''0123456789'' ! d"

function show_nat_go :: "nat \<Rightarrow> string \<Rightarrow> string" where
  "show_nat_go n acc =
     (if n < 10 then digit_char n # acc
      else show_nat_go (n div 10) (digit_char (n mod 10) # acc))"
  by pat_completeness auto
termination
  by (relation "measure fst") auto

declare show_nat_go.simps [simp del]

definition show_nat :: "nat \<Rightarrow> string" where
  \<comment> \<open>the verb \<^verbatim>\<open>%d\<close> on an unsigned value: its decimal digits\<close>
  "show_nat n = show_nat_go n []"

definition FormatInt :: "int \<Rightarrow> string" where
  \<comment> \<open>\<^verbatim>\<open>strconv.FormatInt(i, 10)\<close>\<close>
  "FormatInt i = (if i < 0 then CHR ''-'' # show_nat (nat (- i)) else show_nat (nat i))"

fun Split_on :: "char \<Rightarrow> string \<Rightarrow> string list" where
  \<comment> \<open>\<^verbatim>\<open>strings.Split(s, sep)\<close> for a one-byte separator; the empty string gives one
      empty field.\<close>
  "Split_on sep [] = [[]]"
| "Split_on sep (c # cs) =
     (if c = sep then [] # Split_on sep cs
      else (case Split_on sep cs of [] \<Rightarrow> [[c]] | f # fs \<Rightarrow> (c # f) # fs))"

definition Repeat :: "char \<Rightarrow> nat \<Rightarrow> string" where
  \<comment> \<open>\<^verbatim>\<open>strings.Repeat\<close> of a one-byte string\<close>
  "Repeat c n = replicate n c"

definition HasPrefix :: "string \<Rightarrow> string \<Rightarrow> bool" where
  "HasPrefix s p = prefix p s"

text \<open>
  \<^verbatim>\<open>strings.Fields\<close> splits around runs of white space as \<^verbatim>\<open>unicode.IsSpace\<close> defines
  it. \<open>space_len s\<close> is the length in bytes of the white-space rune that \<open>s\<close> starts with,
  or \<open>0\<close>: the six ASCII spaces, U+0085 and U+00A0 (two bytes in UTF-8), U+1680,
  U+2000 to U+200A, U+2028, U+2029, U+202F, U+205F and U+3000 (three bytes). A lead byte
  of UTF-8 is never a continuation byte, so the decoder reaches each of these sequences at
  its first byte.
\<close>

definition ascii_space :: "char \<Rightarrow> bool" where
  "ascii_space c = (c \<in> {CHR 0x09, CHR 0x0A, CHR 0x0B, CHR 0x0C, CHR 0x0D, CHR 0x20})"

fun space_len :: "string \<Rightarrow> nat" where
  "space_len [] = 0"
| "space_len (c # cs) =
     (if ascii_space c then 1
      else if c = CHR 0xC2 then
        (case cs of d # _ \<Rightarrow> if d = CHR 0x85 \<or> d = CHR 0xA0 then 2 else 0 | [] \<Rightarrow> 0)
      else if c = CHR 0xE1 then
        (case cs of d # e # _ \<Rightarrow> if d = CHR 0x9A \<and> e = CHR 0x80 then 3 else 0 | _ \<Rightarrow> 0)
      else if c = CHR 0xE2 then
        (case cs of
           d # e # _ \<Rightarrow>
             if d = CHR 0x80 \<and>
                ((0x80 \<le> (of_char e :: nat) \<and> (of_char e :: nat) \<le> 0x8A) \<or>
                 e = CHR 0xA8 \<or> e = CHR 0xA9 \<or> e = CHR 0xAF) then 3
             else if d = CHR 0x81 \<and> e = CHR 0x9F then 3 else 0
         | _ \<Rightarrow> 0)
      else if c = CHR 0xE3 then
        (case cs of d # e # _ \<Rightarrow> if d = CHR 0x80 \<and> e = CHR 0x80 then 3 else 0 | _ \<Rightarrow> 0)
      else 0)"

fun fields_go :: "nat \<Rightarrow> string \<Rightarrow> string \<Rightarrow> string list" where
  \<comment> \<open>\<open>fields_go k cur s\<close>: \<open>k\<close> bytes of a white-space rune still to skip, \<open>cur\<close> the
      field being collected.\<close>
  "fields_go k cur [] = (if cur = [] then [] else [cur])"
| "fields_go (Suc k) cur (c # cs) = fields_go k cur cs"
| "fields_go 0 cur (c # cs) =
     (case space_len (c # cs) of
        0 \<Rightarrow> fields_go 0 (cur @ [c]) cs
      | Suc n \<Rightarrow> (if cur = [] then [] else [cur]) @ fields_go n [] cs)"

definition Fields :: "string \<Rightarrow> string list" where
  "Fields s = fields_go 0 [] s"

text \<open>
  \<^verbatim>\<open>utf8.RuneCountInString\<close>, which the verb \<^verbatim>\<open>%Ns\<close> of \<^verbatim>\<open>fmt\<close> pads by.
  \<open>rune_len s\<close> is the width of the first rune of a non-empty \<open>s\<close>: the length of a
  well-formed UTF-8 sequence, and \<open>1\<close> for a byte that starts none.
\<close>

definition cont_in :: "nat \<Rightarrow> nat \<Rightarrow> string \<Rightarrow> nat \<Rightarrow> bool" where
  \<comment> \<open>byte \<open>i\<close> of \<open>s\<close> exists and lies in \<open>[lo, hi]\<close>\<close>
  "cont_in lo hi s i = (i < length s \<and> lo \<le> (of_char (s ! i) :: nat) \<and> (of_char (s ! i) :: nat) \<le> hi)"

definition rune_len :: "string \<Rightarrow> nat" where
  "rune_len s =
     (case s of
        [] \<Rightarrow> 0
      | c # cs \<Rightarrow>
          (let b = (of_char c :: nat) in
           if b < 0x80 then 1
           else if 0xC2 \<le> b \<and> b \<le> 0xDF then (if cont_in 0x80 0xBF cs 0 then 2 else 1)
           else if 0xE0 \<le> b \<and> b \<le> 0xEF then
             (if cont_in (if b = 0xE0 then 0xA0 else 0x80) (if b = 0xED then 0x9F else 0xBF) cs 0
                 \<and> cont_in 0x80 0xBF cs 1 then 3 else 1)
           else if 0xF0 \<le> b \<and> b \<le> 0xF4 then
             (if cont_in (if b = 0xF0 then 0x90 else 0x80) (if b = 0xF4 then 0x8F else 0xBF) cs 0
                 \<and> cont_in 0x80 0xBF cs 1 \<and> cont_in 0x80 0xBF cs 2 then 4 else 1)
           else 1))"

fun rune_count_go :: "nat \<Rightarrow> string \<Rightarrow> nat" where
  "rune_count_go k [] = 0"
| "rune_count_go (Suc k) (c # cs) = rune_count_go k cs"
| "rune_count_go 0 (c # cs) = Suc (rune_count_go (rune_len (c # cs) - 1) cs)"

definition RuneCountInString :: "string \<Rightarrow> nat" where
  "RuneCountInString s = rune_count_go 0 s"

definition pad_right :: "nat \<Rightarrow> string \<Rightarrow> string" where
  \<comment> \<open>the verb \<^verbatim>\<open>%-Ns\<close>: left-justified in \<open>N\<close> runes\<close>
  "pad_right w s = s @ replicate (w - RuneCountInString s) CHR '' ''"

definition pad_left :: "nat \<Rightarrow> string \<Rightarrow> string" where
  \<comment> \<open>the verb \<^verbatim>\<open>%Ns\<close>: right-justified in \<open>N\<close> runes\<close>
  "pad_left w s = replicate (w - RuneCountInString s) CHR '' '' @ s"

subsection \<open>The two regular expressions\<close>

text \<open>
  \<^verbatim>\<open>benchLineMatcher = ^Benchmark.*\t.*\d+\<close>, used with \<^verbatim>\<open>MatchString\<close>: the line
  starts with \<^verbatim>\<open>Benchmark\<close>, and after it come a tab and, later, a digit, with no
  newline before that digit (\<^verbatim>\<open>.\<close> does not match a newline). The first tab is as good
  as any other.
\<close>

definition benchLineMatcher :: "string \<Rightarrow> bool" where
  "benchLineMatcher s =
     (take 9 s = ''Benchmark'' \<and>
      (let t = takeWhile (\<lambda>c. c \<noteq> LF) (drop 9 s);
           u = dropWhile (\<lambda>c. c \<noteq> TAB) t
       in u \<noteq> [] \<and> (\<exists>c \<in> set (tl u). is_digit c)))"

text \<open>
  \<^verbatim>\<open>okLineMatcher = ^ok\s\<close>; the class \<^verbatim>\<open>\s\<close> of Go's regexp syntax is
  \<^verbatim>\<open>[\t\n\f\r ]\<close>.
\<close>

definition okLineMatcher :: "string \<Rightarrow> bool" where
  "okLineMatcher s =
     (take 2 s = ''ok'' \<and>
      (case drop 2 s of
         [] \<Rightarrow> False
       | c # _ \<Rightarrow> c \<in> {CHR 0x09, CHR 0x0A, CHR 0x0C, CHR 0x0D, CHR 0x20}))"

section \<open>Floating-point values\<close>

text \<open>
  A \<^verbatim>\<open>float64\<close> is one of: not-a-number, an infinity, negative zero, or a finite value
  given by the rational number it denotes (\<open>Finite 0\<close> is positive zero). Every
  \<^verbatim>\<open>float64\<close> is one value of this type; the type also has finite values that no
  \<^verbatim>\<open>float64\<close> denotes, which a theorem for all values covers too. \<open>flt\<close> is Go's
  \<^verbatim>\<open><\<close> on \<^verbatim>\<open>float64\<close>: false as soon as one side is not a number.
\<close>

datatype float64 = NaN | NegInf | NegZero | Finite rat | PosInf

fun fkey :: "float64 \<Rightarrow> int \<times> rat" where
  "fkey NegInf = (-1, 0)"
| "fkey NegZero = (0, 0)"
| "fkey (Finite r) = (0, r)"
| "fkey PosInf = (1, 0)"
| "fkey NaN = (2, 0)"

definition flt :: "float64 \<Rightarrow> float64 \<Rightarrow> bool" where
  "flt a b =
     (a \<noteq> NaN \<and> b \<noteq> NaN \<and>
      (fst (fkey a) < fst (fkey b) \<or> (fst (fkey a) = fst (fkey b) \<and> snd (fkey a) < snd (fkey b))))"

definition fle :: "float64 \<Rightarrow> float64 \<Rightarrow> bool" where
  \<comment> \<open>Go's \<^verbatim>\<open><=\<close> on \<^verbatim>\<open>float64\<close>\<close>
  "fle a b =
     (a \<noteq> NaN \<and> b \<noteq> NaN \<and>
      (fst (fkey a) < fst (fkey b) \<or> (fst (fkey a) = fst (fkey b) \<and> snd (fkey a) \<le> snd (fkey b))))"

text \<open>
  What the program takes from the library for floating-point numbers is a parameter of the
  model: \<^verbatim>\<open>strconv.ParseFloat(s, 64)\<close> (\<open>None\<close> is a non-nil error), the verb
  \<^verbatim>\<open>%.2f\<close> of \<^verbatim>\<open>fmt.Sprintf\<close>, and the division of two \<^verbatim>\<open>float64\<close>. Every
  theorem below holds for every such library \<open>L\<close>.
\<close>

record golib =
  ParseFloat :: "string \<Rightarrow> float64 option"
  Sprintf_2f :: "float64 \<Rightarrow> string"
  fdiv :: "float64 \<Rightarrow> float64 \<Rightarrow> float64"

section \<open>The benchmark parser\<close>

text \<open>
  One parsed measurement: \<^verbatim>\<open>bench.Benchmark\<close> as \<^verbatim>\<open>prettybench.go\<close> uses it. The
  parser under \<^verbatim>\<open>src/unnamed/part_000\<close> is the same code with the older names
  (\<^verbatim>\<open>Bench\<close>, \<^verbatim>\<open>NsOp\<close>, \<^verbatim>\<open>MbS\<close>, \<^verbatim>\<open>BOp\<close>, \<^verbatim>\<open>AllocsOp\<close>). The two
  \<^verbatim>\<open>uint64\<close> fields are natural numbers below \<open>2^64\<close>; nothing is computed with them.
  The flags share their names with fields in the source, so they carry a suffix here.
\<close>

record Benchmark =
  Name :: string
  N :: int
  NsPerOp :: float64
  MBPerS :: float64
  AllocedBytesPerOp :: nat
  AllocsPerOp :: nat
  Measured :: int

definition NsPerOp_flag :: int where "NsPerOp_flag = 1"
definition MBPerS_flag :: int where "MBPerS_flag = 2"
definition AllocedBytesPerOp_flag :: int where "AllocedBytesPerOp_flag = 4"
definition AllocsPerOp_flag :: int where "AllocsPerOp_flag = 8"

datatype parse_error =
    errNotBenchLine
  | TwoFieldsRequired nat
  | NoBenchmarkPrefix
  | AtoiError string

definition new_Benchmark :: "string \<Rightarrow> int \<Rightarrow> Benchmark" where
  \<comment> \<open>\<^verbatim>\<open>&Bench{Name: fields[0], N: n}\<close>: the other fields are zero\<close>
  "new_Benchmark name n =
     \<lparr>Name = name, N = n, NsPerOp = Finite 0, MBPerS = Finite 0,
      AllocedBytesPerOp = 0, AllocsPerOp = 0, Measured = 0\<rparr>"

definition parseMeasurement :: "golib \<Rightarrow> Benchmark \<Rightarrow> string \<Rightarrow> string \<Rightarrow> Benchmark" where
  "parseMeasurement L b quant unit =
     (if unit = ''ns/op'' then
        (case ParseFloat L quant of
           Some f \<Rightarrow> b\<lparr>NsPerOp := f, Measured := Measured b OR NsPerOp_flag\<rparr>
         | None \<Rightarrow> b)
      else if unit = ''MB/s'' then
        (case ParseFloat L quant of
           Some f \<Rightarrow> b\<lparr>MBPerS := f, Measured := Measured b OR MBPerS_flag\<rparr>
         | None \<Rightarrow> b)
      else if unit = ''B/op'' then
        (case ParseUint quant of
           Some i \<Rightarrow> b\<lparr>AllocedBytesPerOp := i, Measured := Measured b OR AllocedBytesPerOp_flag\<rparr>
         | None \<Rightarrow> b)
      else if unit = ''allocs/op'' then
        (case ParseUint quant of
           Some i \<Rightarrow> b\<lparr>AllocsPerOp := i, Measured := Measured b OR AllocsPerOp_flag\<rparr>
         | None \<Rightarrow> b)
      else b)"

definition parse_pairs :: "golib \<Rightarrow> string list \<Rightarrow> Benchmark \<Rightarrow> Benchmark" where
  \<comment> \<open>the loop \<^verbatim>\<open>for i := 1; i < len(fields)/2; i++\<close> of \<^verbatim>\<open>bench.ParseLine\<close>\<close>
  "parse_pairs L flds b =
     foldl (\<lambda>b i. parseMeasurement L b (flds ! (i * 2)) (flds ! (i * 2 + 1))) b
       [1 ..< length flds div 2]"

definition bench_ParseLine :: "golib \<Rightarrow> string \<Rightarrow> parse_error + Benchmark" where
  \<comment> \<open>\<^verbatim>\<open>ParseLine\<close> of the package \<^verbatim>\<open>bench\<close>\<close>
  "bench_ParseLine L line =
     (let flds = Fields line in
      if length flds < 2 then Inl (TwoFieldsRequired (length flds))
      else if \<not> HasPrefix (flds ! 0) ''Benchmark'' then Inl NoBenchmarkPrefix
      else (case Atoi (flds ! 1) of
              None \<Rightarrow> Inl (AtoiError (flds ! 1))
            | Some n \<Rightarrow> Inr (parse_pairs L flds (new_Benchmark (flds ! 0) n))))"

definition ParseLine :: "golib \<Rightarrow> string \<Rightarrow> parse_error + Benchmark" where
  \<comment> \<open>\<^verbatim>\<open>ParseLine\<close> of \<^verbatim>\<open>prettybench.go\<close>\<close>
  "ParseLine L line =
     (if \<not> benchLineMatcher line then Inl errNotBenchLine
      else if length (Split_on TAB line) < 3 then Inl errNotBenchLine
      else bench_ParseLine L line)"

section \<open>Groups, the time unit and the table\<close>

record BenchOutputGroup =
  Lines :: "Benchmark list"
  GMeasured :: int  \<comment> \<open>the field \<^verbatim>\<open>Measured\<close> of the group: columns which are in use\<close>

record Table =
  MaxLengths :: "nat list"
  Cells :: "string list list"

datatype panic = IndexOutOfRange nat nat  \<comment> \<open>the index and the length\<close>

definition new_group :: BenchOutputGroup where
  \<comment> \<open>\<^verbatim>\<open>&BenchOutputGroup{}\<close>\<close>
  "new_group = \<lparr>Lines = [], GMeasured = 0\<rparr>"

definition AddLine :: "BenchOutputGroup \<Rightarrow> Benchmark \<Rightarrow> BenchOutputGroup" where
  "AddLine g line = g\<lparr>Lines := Lines g @ [line], GMeasured := GMeasured g OR Measured line\<rparr>"

definition FormatAllocsPerOp :: "Benchmark \<Rightarrow> string" where
  "FormatAllocsPerOp l =
     (if Measured l AND AllocsPerOp_flag = 0 then []
      else show_nat (AllocsPerOp l) @ '' allocs/op'')"

definition FormatBytesAllocPerOp :: "Benchmark \<Rightarrow> string" where
  "FormatBytesAllocPerOp l =
     (if Measured l AND AllocedBytesPerOp_flag = 0 then []
      else show_nat (AllocedBytesPerOp l) @ '' B/op'')"

definition FormatIterations :: "int \<Rightarrow> string" where
  "FormatIterations iter = FormatInt iter"

definition FormatMegaBytesPerSecond :: "golib \<Rightarrow> Benchmark \<Rightarrow> string" where
  "FormatMegaBytesPerSecond L l =
     (if Measured l AND MBPerS_flag = 0 then []
      else Sprintf_2f L (MBPerS l) @ '' MB/s'')"

text \<open>
  \<^verbatim>\<open>TimeFormatFunc\<close> finds the smallest time with a loop over the lines after the first,
  and its \<^verbatim>\<open>switch\<close> returns one of four closures. The closure is given here by the
  unit the \<^verbatim>\<open>switch\<close> selects. The thresholds are \<^verbatim>\<open>float64(10000*time.Nanosecond)\<close>,
  \<^verbatim>\<open>float64(time.Millisecond)\<close> and \<^verbatim>\<open>float64(10*time.Second)\<close>, a
  \<^verbatim>\<open>time.Duration\<close> counting nanoseconds. The micro sign of the second suffix is the two
  bytes \<open>0xCE 0xBC\<close>.
\<close>

datatype time_unit = Nanoseconds | Microseconds | Milliseconds | Seconds

definition smaller :: "float64 \<Rightarrow> Benchmark \<Rightarrow> float64" where
  \<comment> \<open>the body of the loop: \<^verbatim>\<open>if line.NsPerOp < smallest { smallest = line.NsPerOp }\<close>\<close>
  "smaller s line = (if flt (NsPerOp line) s then NsPerOp line else s)"

definition smallest :: "Benchmark \<Rightarrow> Benchmark list \<Rightarrow> float64" where
  \<comment> \<open>from \<^verbatim>\<open>g.Lines[0].NsPerOp\<close>, over \<^verbatim>\<open>g.Lines[1:]\<close>\<close>
  "smallest first rest = foldl smaller (NsPerOp first) rest"

definition select_unit :: "float64 \<Rightarrow> time_unit" where
  "select_unit s =
     (if flt s (Finite 10000) then Nanoseconds
      else if flt s (Finite 1000000) then Microseconds
      else if flt s (Finite 10000000000) then Milliseconds
      else Seconds)"

fun format_time :: "golib \<Rightarrow> time_unit \<Rightarrow> float64 \<Rightarrow> string" where
  "format_time L Nanoseconds ns = Sprintf_2f L ns @ '' ns/op''"
| "format_time L Microseconds ns =
     Sprintf_2f L (fdiv L ns (Finite 1000)) @ [CHR 0x20, CHR 0xCE, CHR 0xBC] @ ''s/op''"
| "format_time L Milliseconds ns = Sprintf_2f L (fdiv L ns (Finite 1000000)) @ '' ms/op''"
| "format_time L Seconds ns = Sprintf_2f L (fdiv L ns (Finite 1000000000)) @ '' s/op''"

definition TimeFormatFunc :: "golib \<Rightarrow> BenchOutputGroup \<Rightarrow> panic + (float64 \<Rightarrow> string)" where
  \<comment> \<open>\<^verbatim>\<open>g.Lines[0]\<close> panics on a group with no lines\<close>
  "TimeFormatFunc L g =
     (case Lines g of
        [] \<Rightarrow> Inl (IndexOutOfRange 0 0)
      | first # rest \<Rightarrow> Inr (format_time L (select_unit (smallest first rest))))"

definition columnNames :: "BenchOutputGroup \<Rightarrow> string list" where
  \<comment> \<open>the column names that \<^verbatim>\<open>String\<close> collects before it calls \<^verbatim>\<open>tabulate\<close>\<close>
  "columnNames g =
     [''benchmark'', ''iter'', ''time/iter'']
     @ (if GMeasured g AND MBPerS_flag > 0 then [''throughput''] else [])
     @ (if GMeasured g AND AllocedBytesPerOp_flag > 0 then [''bytes alloc''] else [])
     @ (if GMeasured g AND AllocsPerOp_flag > 0 then [''allocs''] else [])"

definition table_row :: "golib \<Rightarrow> BenchOutputGroup \<Rightarrow> (float64 \<Rightarrow> string) \<Rightarrow> Benchmark \<Rightarrow> string list" where
  \<comment> \<open>the body of the loop over \<^verbatim>\<open>g.Lines\<close> in \<^verbatim>\<open>tabulate\<close>\<close>
  "table_row L g timeFormatFunc line =
     [Name line, FormatIterations (N line), timeFormatFunc (NsPerOp line)]
     @ (if GMeasured g AND MBPerS_flag > 0 then [FormatMegaBytesPerSecond L line] else [])
     @ (if GMeasured g AND AllocedBytesPerOp_flag > 0 then [FormatBytesAllocPerOp line] else [])
     @ (if GMeasured g AND AllocsPerOp_flag > 0 then [FormatAllocsPerOp line] else [])"

definition underlines :: "string list \<Rightarrow> string list" where
  \<comment> \<open>\<^verbatim>\<open>make([]string, len(columnNames))\<close> is a slice of that many empty strings, and the
      loop appends one run of dashes a name to it\<close>
  "underlines names =
     foldl (\<lambda>us name. us @ [Repeat CHR ''-'' (length name)]) (replicate (length names) []) names"

definition tabulate :: "golib \<Rightarrow> BenchOutputGroup \<Rightarrow> string list \<Rightarrow> panic + Table" where
  "tabulate L g names =
     (case TimeFormatFunc L g of
        Inl p \<Rightarrow> Inl p
      | Inr timeFormatFunc \<Rightarrow>
          Inr \<lparr>MaxLengths = [],
               Cells = [names, underlines names] @ map (table_row L g timeFormatFunc) (Lines g)\<rparr>)"

fun max_length_col :: "nat \<Rightarrow> string list list \<Rightarrow> nat \<Rightarrow> panic + nat" where
  \<comment> \<open>the inner loop of \<^verbatim>\<open>findMaxLengths\<close>; \<^verbatim>\<open>row[i]\<close> panics on a row of at most
      \<open>i\<close> cells\<close>
  "max_length_col i [] maxLength = Inr maxLength"
| "max_length_col i (row # rows) maxLength =
     (if i < length row
      then max_length_col i rows (if length (row ! i) > maxLength then length (row ! i) else maxLength)
      else Inl (IndexOutOfRange i (length row)))"

fun max_lengths_go :: "nat list \<Rightarrow> string list list \<Rightarrow> nat list \<Rightarrow> panic + nat list" where
  "max_lengths_go [] tableCells acc = Inr acc"
| "max_lengths_go (i # is) tableCells acc =
     (case max_length_col i tableCells 0 of
        Inl p \<Rightarrow> Inl p
      | Inr m \<Rightarrow> max_lengths_go is tableCells (acc @ [m]))"

definition findMaxLengths :: "string list \<Rightarrow> string list list \<Rightarrow> panic + nat list" where
  "findMaxLengths colNames tableCells = max_lengths_go [0 ..< length colNames] tableCells []"

definition getFormat :: "nat \<Rightarrow> nat \<Rightarrow> nat \<Rightarrow> string \<Rightarrow> string" where
  \<comment> \<open>\<^verbatim>\<open>getFormat(rowNum, rowLen)\<close>, then the width written into the format and the cell
      printed with it: \<^verbatim>\<open>%-Ns\<close> and three spaces for the first cell, \<^verbatim>\<open>%Ns\<close> for the
      last, \<^verbatim>\<open>%Ns\<close> and three spaces otherwise\<close>
  "getFormat rowNum rowLen w cell =
     (if rowNum = 0 then pad_right w cell @ ''   ''
      else if int rowNum = int rowLen - 1 then pad_left w cell
      else pad_left w cell @ ''   '')"

fun format_row :: "nat \<Rightarrow> nat \<Rightarrow> string list \<Rightarrow> nat list \<Rightarrow> string \<Rightarrow> panic + string" where
  \<comment> \<open>the inner loop of \<^verbatim>\<open>formatTableCells\<close> from cell \<open>i\<close> on;
      \<^verbatim>\<open>tableMaxLengths[i]\<close> panics when there are at most \<open>i\<close> widths\<close>
  "format_row i rowLen [] tableMaxLengths buf = Inr buf"
| "format_row i rowLen (cell # cells) tableMaxLengths buf =
     (if i < length tableMaxLengths
      then format_row (Suc i) rowLen cells tableMaxLengths
             (buf @ getFormat i rowLen (tableMaxLengths ! i) cell)
      else Inl (IndexOutOfRange i (length tableMaxLengths)))"

fun format_rows :: "string list list \<Rightarrow> nat list \<Rightarrow> string \<Rightarrow> panic + string" where
  "format_rows [] tableMaxLengths buf = Inr buf"
| "format_rows (row # rows) tableMaxLengths buf =
     (case format_row 0 (length row) row tableMaxLengths buf of
        Inl p \<Rightarrow> Inl p
      | Inr buf' \<Rightarrow> format_rows rows tableMaxLengths (buf' @ [LF]))"

definition formatTableCells :: "string list list \<Rightarrow> nat list \<Rightarrow> panic + string" where
  "formatTableCells tableCells tableMaxLengths = format_rows tableCells tableMaxLengths []"

definition String :: "golib \<Rightarrow> BenchOutputGroup \<Rightarrow> panic + string" where
  \<comment> \<open>the method \<^verbatim>\<open>String\<close> of \<^verbatim>\<open>BenchOutputGroup\<close>\<close>
  "String L g =
     (if length (Lines g) = 0 then Inr []
      else
        (case tabulate L g (columnNames g) of
           Inl p \<Rightarrow> Inl p
         | Inr table \<Rightarrow>
             (case findMaxLengths (columnNames g) (Cells table) of
                Inl p \<Rightarrow> Inl p
              | Inr ml \<Rightarrow>
                  formatTableCells (Cells (table\<lparr>MaxLengths := ml\<rparr>))
                    (MaxLengths (table\<lparr>MaxLengths := ml\<rparr>)))))"

section \<open>The main loop\<close>

text \<open>
  What \<^verbatim>\<open>main\<close> writes is a list of events, one for each call of a printing function:
  \<^verbatim>\<open>fmt.Print(currentBenchmark)\<close> with the group it is given (\<^verbatim>\<open>fmt\<close> calls the
  group's \<^verbatim>\<open>String\<close> method, and writes a notice of its own in place of the text when
  that method panics), \<^verbatim>\<open>fmt.Println\<close> of a text on the standard output, and
  \<^verbatim>\<open>fmt.Fprintln\<close> of a text on the standard error. The input is the list of lines the
  scanner delivers and the error it ends with, if any.
\<close>

datatype event = PrintGroup BenchOutputGroup | PrintlnStdout string | PrintlnStderr string

definition step :: "golib \<Rightarrow> bool \<Rightarrow> BenchOutputGroup \<times> event list \<Rightarrow> string
    \<Rightarrow> BenchOutputGroup \<times> event list" where
  \<comment> \<open>the body of the loop of \<^verbatim>\<open>main\<close> on one line \<open>text\<close>\<close>
  "step L noPassthrough st text =
     (case st of (currentBenchmark, out) \<Rightarrow>
        (case ParseLine L text of
           Inl err \<Rightarrow>
             if err = errNotBenchLine then
               (let (g', out') =
                      (if okLineMatcher text
                       then (new_group, out @ [PrintGroup currentBenchmark])
                       else (currentBenchmark, out))
                in (g', if \<not> noPassthrough then out' @ [PrintlnStdout text] else out'))
             else
               (currentBenchmark,
                out @ [PrintlnStderr ''prettybench unrecognized line:'', PrintlnStdout text])
         | Inr line \<Rightarrow> (AddLine currentBenchmark line, out)))"

definition run_lines :: "golib \<Rightarrow> bool \<Rightarrow> string list \<Rightarrow> BenchOutputGroup \<times> event list" where
  "run_lines L noPassthrough lines = foldl (step L noPassthrough) (new_group, []) lines"

definition main :: "golib \<Rightarrow> bool \<Rightarrow> string list \<Rightarrow> string option \<Rightarrow> event list \<times> nat" where
  \<comment> \<open>the events and the exit status; \<open>scan_err\<close> is \<^verbatim>\<open>scanner.Err()\<close>\<close>
  "main L noPassthrough lines scan_err =
     (let (g, out) = run_lines L noPassthrough lines in
      case scan_err of
        None \<Rightarrow> (out, 0)
      | Some err \<Rightarrow> (out @ [PrintlnStdout err], 1))"

definition stdout_text :: "golib \<Rightarrow> event \<Rightarrow> panic + string" where
  \<comment> \<open>the bytes an event puts on the standard output; \<open>Inl\<close> when \<^verbatim>\<open>String\<close> panicked
      and \<^verbatim>\<open>fmt\<close> wrote its notice of the panic instead\<close>
  "stdout_text L e =
     (case e of
        PrintGroup g \<Rightarrow> String L g
      | PrintlnStdout s \<Rightarrow> Inr (s @ [LF])
      | PrintlnStderr s \<Rightarrow> Inr [])"

section \<open>A sample library\<close>

text \<open>
  To evaluate the model on concrete inputs the library parameter needs a value. This one
  reads only unsigned decimal integers below \<open>2^53\<close> (on which it agrees with
  \<^verbatim>\<open>strconv.ParseFloat\<close>), prints a value rounded half-to-even to two decimals as
  \<^verbatim>\<open>%.2f\<close> does, and divides finite values exactly, where Go rounds the quotient to
  the nearest \<^verbatim>\<open>float64\<close>. No theorem about all libraries depends on it.
\<close>

definition sample_ParseFloat :: "string \<Rightarrow> float64 option" where
  "sample_ParseFloat s =
     (if s \<noteq> [] \<and> list_all is_digit s \<and> dec_val s < 2 ^ 53
      then Some (Finite (of_nat (dec_val s))) else None)"

definition round_half_even :: "rat \<Rightarrow> nat" where
  \<comment> \<open>for a rational that is not negative\<close>
  "round_half_even q =
     (let f = nat \<lfloor>q\<rfloor>; d = q - of_nat f in
      if d < 1 / 2 then f else if 1 / 2 < d then f + 1 else if even f then f else f + 1)"

definition two_digits :: "nat \<Rightarrow> string" where
  "two_digits n = [digit_char (n div 10 mod 10), digit_char (n mod 10)]"

fun sample_Sprintf_2f :: "float64 \<Rightarrow> string" where
  "sample_Sprintf_2f NaN = ''NaN''"
| "sample_Sprintf_2f PosInf = ''+Inf''"
| "sample_Sprintf_2f NegInf = ''-Inf''"
| "sample_Sprintf_2f NegZero = ''-0.00''"
| "sample_Sprintf_2f (Finite r) =
     (let n = round_half_even (\<bar>r\<bar> * 100) in
      (if r < 0 then ''-'' else []) @ show_nat (n div 100) @ ''.'' @ two_digits n)"

fun sample_fdiv :: "float64 \<Rightarrow> float64 \<Rightarrow> float64" where
  "sample_fdiv (Finite x) (Finite y) = (if y = 0 then NaN else Finite (x / y))"
| "sample_fdiv NegZero (Finite y) = (if y = 0 then NaN else if y < 0 then Finite 0 else NegZero)"
| "sample_fdiv PosInf (Finite y) = (if y < 0 then NegInf else PosInf)"
| "sample_fdiv NegInf (Finite y) = (if y < 0 then PosInf else NegInf)"
| "sample_fdiv a b = NaN"

definition sample_lib :: golib where
  "sample_lib = \<lparr>ParseFloat = sample_ParseFloat, Sprintf_2f = sample_Sprintf_2f, fdiv = sample_fdiv\<rparr>"

text \<open>
  Sample inputs: the measurement line of the specification's end-to-end scenario (with the
  throughput written \<^verbatim>\<open>800\<close>, which the sample library reads), the record it parses to,
  and the group that holds this one record.
\<close>

definition sample_line :: string where
  "sample_line =
     ''BenchmarkFoo-8'' @ [TAB] @ ''1000000'' @ [TAB] @ ''120 ns/op'' @ [TAB] @ ''800 MB/s''"

definition sample_record :: Benchmark where
  "sample_record =
     \<lparr>Name = ''BenchmarkFoo-8'', N = 1000000, NsPerOp = Finite 120, MBPerS = Finite 800,
      AllocedBytesPerOp = 0, AllocsPerOp = 0, Measured = 3\<rparr>"

definition sample_group :: BenchOutputGroup where
  "sample_group = \<lparr>Lines = [sample_record], GMeasured = 3\<rparr>"

definition ok_line :: string where
  \<comment> \<open>the terminator line of the specification's end-to-end scenario\<close>
  "ok_line = ''ok  pkg/example  0.120s''"

definition short_line :: string where
  \<comment> \<open>two fields between tabs\<close>
  "short_line = ''Benchmark'' @ [TAB] @ ''1''"

definition widgets_line :: string where
  "widgets_line = ''BenchmarkFoo'' @ [TAB] @ ''10'' @ [TAB] @ ''5 widgets/op''"


definition sample_record_slow :: Benchmark where
  "sample_record_slow =
     \<lparr>Name = ''BenchmarkSlow'', N = 50, NsPerOp = Finite 3000000, MBPerS = Finite 0,
      AllocedBytesPerOp = 0, AllocsPerOp = 0, Measured = 1\<rparr>"

definition sample_record_mid :: Benchmark where
  "sample_record_mid =
     \<lparr>Name = ''BenchmarkMid'', N = 5000, NsPerOp = Finite 20000, MBPerS = Finite 0,
      AllocedBytesPerOp = 0, AllocsPerOp = 0, Measured = 1\<rparr>"

definition sample_group_two :: BenchOutputGroup where
  \<comment> \<open>two records, the second with the smaller time\<close>
  "sample_group_two = \<lparr>Lines = [sample_record_slow, sample_record_mid], GMeasured = 1\<rparr>"

definition sample_cells :: "string list list" where
  \<comment> \<open>a header row and one data row, of two columns\<close>
  "sample_cells = [[''benchmark'', ''iter''], [''BenchmarkFoo'', ''12'']]"

text \<open>
  A second sample library, which reads \<^verbatim>\<open>NaN\<close> as \<^verbatim>\<open>strconv.ParseFloat\<close> does and
  is the first one otherwise; two measurement lines, one with the time \<^verbatim>\<open>NaN\<close>; the
  records they parse to; and the two groups that hold these records in either order.
\<close>

definition nan_lib :: golib where
  "nan_lib =
     sample_lib\<lparr>ParseFloat := (\<lambda>s. if s = ''NaN'' then Some NaN else sample_ParseFloat s)\<rparr>"

definition nan_line :: string where
  "nan_line = ''BenchmarkNaN'' @ [TAB] @ ''1'' @ [TAB] @ ''NaN ns/op''"

definition five_line :: string where
  "five_line = ''BenchmarkFive'' @ [TAB] @ ''1'' @ [TAB] @ ''5 ns/op''"

definition nan_record :: Benchmark where
  "nan_record =
     \<lparr>Name = ''BenchmarkNaN'', N = 1, NsPerOp = NaN, MBPerS = Finite 0,
      AllocedBytesPerOp = 0, AllocsPerOp = 0, Measured = 1\<rparr>"

definition five_record :: Benchmark where
  "five_record =
     \<lparr>Name = ''BenchmarkFive'', N = 1, NsPerOp = Finite 5, MBPerS = Finite 0,
      AllocedBytesPerOp = 0, AllocsPerOp = 0, Measured = 1\<rparr>"

definition nan_first_group :: BenchOutputGroup where
  "nan_first_group = \<lparr>Lines = [nan_record, five_record], GMeasured = 1\<rparr>"

definition nan_last_group :: BenchOutputGroup where
  "nan_last_group = \<lparr>Lines = [five_record, nan_record], GMeasured = 1\<rparr>"

section \<open>Notions the statements use\<close>

definition is_PrintGroup :: "event \<Rightarrow> bool" where
  \<comment> \<open>the event is a call \<^verbatim>\<open>fmt.Print(currentBenchmark)\<close>, the only place where a
      group is rendered\<close>
  "is_PrintGroup e = (case e of PrintGroup g \<Rightarrow> True | _ \<Rightarrow> False)"

definition parsed_records :: "golib \<Rightarrow> string list \<Rightarrow> Benchmark list" where
  \<comment> \<open>the records of those lines that \<open>ParseLine\<close> accepts, in order\<close>
  "parsed_records L lines =
     List.map_filter (\<lambda>l. case ParseLine L l of Inr b \<Rightarrow> Some b | Inl e \<Rightarrow> None) lines"

fun unit_rank :: "time_unit \<Rightarrow> nat" where
  \<comment> \<open>the units from the finest to the coarsest\<close>
  "unit_rank Nanoseconds = 0"
| "unit_rank Microseconds = 1"
| "unit_rank Milliseconds = 2"
| "unit_rank Seconds = 3"

definition chosen_unit :: "BenchOutputGroup \<Rightarrow> time_unit option" where
  \<comment> \<open>the unit of the function that \<^verbatim>\<open>TimeFormatFunc\<close> returns; none for the group
      without lines, on which it panics\<close>
  "chosen_unit g =
     (case Lines g of [] \<Rightarrow> None | first # rest \<Rightarrow> Some (select_unit (smallest first rest)))"

definition replace_time :: "BenchOutputGroup \<Rightarrow> nat \<Rightarrow> float64 \<Rightarrow> BenchOutputGroup" where
  \<comment> \<open>the group with the time of line \<open>i\<close> replaced by \<open>v\<close>\<close>
  "replace_time g i v = g\<lparr>Lines := (Lines g)[i := (Lines g ! i)\<lparr>NsPerOp := v\<rparr>]\<rparr>"

section \<open>Evaluating the samples\<close>

lemma Fields_sample_line:
  "Fields sample_line = [''BenchmarkFoo-8'', ''1000000'', ''120'', ''ns/op'', ''800'', ''MB/s'']"
  by (simp add: Fields_def sample_line_def ascii_space_def)

lemma benchLineMatcher_sample_line: "benchLineMatcher sample_line"
  by (simp add: benchLineMatcher_def sample_line_def is_digit_def)

lemma bench_ParseLine_sample_line: "bench_ParseLine sample_lib sample_line = Inr sample_record"
  by (simp add: bench_ParseLine_def Fields_sample_line HasPrefix_def Atoi_def is_digit_def
      dec_val_def parse_pairs_def parseMeasurement_def new_Benchmark_def sample_lib_def
      sample_ParseFloat_def sample_record_def NsPerOp_flag_def MBPerS_flag_def
      upt_rec [of _ "numeral n" for n])

lemma ParseLine_sample_line: "ParseLine sample_lib sample_line = Inr sample_record"
  by (simp add: ParseLine_def benchLineMatcher_sample_line bench_ParseLine_sample_line)
     (simp add: sample_line_def)

lemma AddLine_sample_record: "AddLine new_group sample_record = sample_group"
  by (simp add: AddLine_def new_group_def sample_group_def sample_record_def)

lemma columnNames_sample_group:
  "columnNames sample_group = [''benchmark'', ''iter'', ''time/iter'', ''throughput'']"
  by (simp add: columnNames_def sample_group_def MBPerS_flag_def AllocedBytesPerOp_flag_def
      AllocsPerOp_flag_def)

section \<open>The pattern of a benchmark line\<close>

text \<open>
  \<open>benchLineMatcher\<close> decides the pattern \<^verbatim>\<open>^Benchmark.*\t.*\d+\<close>: it accepts exactly the
  strings that are \<^verbatim>\<open>Benchmark\<close>, a run without newline, a tab, a run without newline,
  a digit, and anything.
\<close>

lemma benchLineMatcher_complete:
  assumes "LF \<notin> set a" and "LF \<notin> set b" and "ds \<noteq> []" and "\<forall>c \<in> set ds. is_digit c"
  shows "benchLineMatcher (''Benchmark'' @ a @ [TAB] @ b @ ds @ rest)"
proof -
  define s where "s = ''Benchmark'' @ a @ [TAB] @ b @ ds @ rest"
  from assms(3) obtain d ds' where ds: "ds = d # ds'" by (cases ds) auto
  with assms(4) have d: "is_digit d" by simp
  then have dl: "d \<noteq> LF" by (auto simp: is_digit_def)
  define w where "w = b @ d # takeWhile (\<lambda>c. c \<noteq> LF) (ds' @ rest)"
  have p: "take 9 s = ''Benchmark''" by (simp add: s_def)
  have r: "drop 9 s = a @ (TAB # (b @ (d # (ds' @ rest))))" by (simp add: s_def ds)
  have "takeWhile (\<lambda>c. c \<noteq> LF) (b @ (d # (ds' @ rest)))
        = b @ takeWhile (\<lambda>c. c \<noteq> LF) (d # (ds' @ rest))"
    by (rule takeWhile_append2) (use assms(2) in auto)
  then have tb: "takeWhile (\<lambda>c. c \<noteq> LF) (TAB # (b @ (d # (ds' @ rest)))) = TAB # w"
    using dl by (simp add: w_def)
  have "takeWhile (\<lambda>c. c \<noteq> LF) (a @ (TAB # (b @ (d # (ds' @ rest)))))
        = a @ takeWhile (\<lambda>c. c \<noteq> LF) (TAB # (b @ (d # (ds' @ rest))))"
    by (rule takeWhile_append2) (use assms(1) in auto)
  with tb r have t: "takeWhile (\<lambda>c. c \<noteq> LF) (drop 9 s) = a @ TAB # w" by simp
  have dw: "d \<in> set w" by (simp add: w_def)
  have u: "dropWhile (\<lambda>c. c \<noteq> TAB) (a @ TAB # w) \<noteq> []
      \<and> (\<exists>c \<in> set (tl (dropWhile (\<lambda>c. c \<noteq> TAB) (a @ TAB # w))). is_digit c)"
  proof (cases "TAB \<in> set a")
    case True
    then obtain p q where a: "a = p @ TAB # q" and p: "TAB \<notin> set p"
      by (auto dest: split_list_first)
    have "dropWhile (\<lambda>c. c \<noteq> TAB) (p @ (TAB # q @ TAB # w)) = dropWhile (\<lambda>c. c \<noteq> TAB) (TAB # q @ TAB # w)"
      by (rule dropWhile_append2) (use p in auto)
    then have "dropWhile (\<lambda>c. c \<noteq> TAB) (a @ TAB # w) = TAB # q @ TAB # w"
      by (simp add: a)
    with dw d show ?thesis by auto
  next
    case False
    have "dropWhile (\<lambda>c. c \<noteq> TAB) (a @ (TAB # w)) = dropWhile (\<lambda>c. c \<noteq> TAB) (TAB # w)"
      by (rule dropWhile_append2) (use False in auto)
    then have "dropWhile (\<lambda>c. c \<noteq> TAB) (a @ TAB # w) = TAB # w" by simp
    with dw d show ?thesis by auto
  qed
  have "benchLineMatcher s"
    by (simp only: benchLineMatcher_def Let_def p t) (use u in blast)
  then show ?thesis by (simp only: s_def)
qed

lemma benchLineMatcher_sound:
  assumes "benchLineMatcher s"
  shows "\<exists>a b d rest. s = ''Benchmark'' @ a @ [TAB] @ b @ [d] @ rest
           \<and> LF \<notin> set a \<and> LF \<notin> set b \<and> is_digit d"
proof -
  define r where "r = drop 9 s"
  define t where "t = takeWhile (\<lambda>c. c \<noteq> LF) r"
  define u where "u = dropWhile (\<lambda>c. c \<noteq> TAB) t"
  define a where "a = takeWhile (\<lambda>c. c \<noteq> TAB) t"
  define tail where "tail = dropWhile (\<lambda>c. c \<noteq> LF) r"
  from assms have p: "take 9 s = ''Benchmark''" and u: "u \<noteq> []"
    and "\<exists>c \<in> set (tl u). is_digit c"
    by (simp_all add: benchLineMatcher_def Let_def u_def t_def r_def)
  then obtain d where d: "d \<in> set (tl u)" "is_digit d" by blast
  from u have "hd u = TAB"
    unfolding u_def using hd_dropWhile [of "\<lambda>c. c \<noteq> TAB" t] by auto
  with u have ueq: "u = TAB # tl u" by (cases u) auto
  from d(1) obtain b rest1 where tl: "tl u = b @ d # rest1" by (auto dest: split_list)
  have "t = a @ u" by (simp add: a_def u_def)
  with ueq tl have teq: "t = a @ TAB # b @ d # rest1" by simp
  have nolf: "LF \<notin> set t" unfolding t_def by (auto dest: set_takeWhileD)
  have "r = t @ tail" by (simp add: t_def tail_def)
  with teq have req: "r = a @ [TAB] @ b @ [d] @ (rest1 @ tail)" by simp
  have "s = take 9 s @ r" by (simp add: r_def)
  with p req have "s = ''Benchmark'' @ a @ [TAB] @ b @ [d] @ (rest1 @ tail)" by simp
  moreover have "LF \<notin> set a" "LF \<notin> set b"
    using nolf by (simp_all add: teq)
  ultimately show ?thesis using d(2) by blast
qed

lemma benchLineMatcher_iff:
  "benchLineMatcher s =
     (\<exists>a b d rest. s = ''Benchmark'' @ a @ [TAB] @ b @ [d] @ rest
        \<and> LF \<notin> set a \<and> LF \<notin> set b \<and> is_digit d)"
proof
  assume "benchLineMatcher s"
  then show "\<exists>a b d rest. s = ''Benchmark'' @ a @ [TAB] @ b @ [d] @ rest
        \<and> LF \<notin> set a \<and> LF \<notin> set b \<and> is_digit d"
    by (rule benchLineMatcher_sound)
next
  assume "\<exists>a b d rest. s = ''Benchmark'' @ a @ [TAB] @ b @ [d] @ rest
        \<and> LF \<notin> set a \<and> LF \<notin> set b \<and> is_digit d"
  then obtain a b d rest where s: "s = ''Benchmark'' @ a @ [TAB] @ b @ [d] @ rest"
    and n: "LF \<notin> set a" "LF \<notin> set b" and d: "is_digit d" by blast
  from d have "\<forall>c \<in> set [d]. is_digit c" by simp
  from benchLineMatcher_complete [OF n _ this, of rest] show "benchLineMatcher s"
    by (simp only: s) simp
qed

section \<open>The underline row and the text of a table\<close>

lemma underlines_eq:
  "underlines names =
     replicate (length names) [] @ map (\<lambda>name. Repeat CHR ''-'' (length name)) names"
proof -
  have "foldl (\<lambda>us name. us @ [Repeat CHR ''-'' (length name)]) acc ns
        = acc @ map (\<lambda>name. Repeat CHR ''-'' (length name)) ns" for acc and ns :: "string list"
    by (induction ns arbitrary: acc) simp_all
  then show ?thesis by (simp add: underlines_def)
qed

lemma length_underlines: "length (underlines names) = 2 * length names"
  by (simp add: underlines_eq)

lemma length_table_row: "length (table_row L g f line) = length (columnNames g)"
  by (simp add: table_row_def columnNames_def)

lemma max_length_col_ok:
  "\<forall>row \<in> set cells. i < length row \<Longrightarrow> \<exists>m. max_length_col i cells m0 = Inr m"
  by (induction cells arbitrary: m0) simp_all

lemma max_lengths_go_ok:
  "\<forall>i \<in> set idx. \<forall>row \<in> set cells. i < length row \<Longrightarrow>
   \<exists>ml. max_lengths_go idx cells acc = Inr ml \<and> length ml = length acc + length idx"
proof (induction idx arbitrary: acc)
  case Nil
  then show ?case by simp
next
  case (Cons i idx)
  from Cons.prems obtain m where m: "max_length_col i cells 0 = Inr m"
    using max_length_col_ok [of cells i 0] by auto
  from Cons.prems have "\<forall>i \<in> set idx. \<forall>row \<in> set cells. i < length row" by simp
  from Cons.IH [OF this, of "acc @ [m]"] m show ?case by auto
qed

lemma findMaxLengths_ok:
  "\<forall>row \<in> set cells. length names \<le> length row \<Longrightarrow>
   \<exists>ml. findMaxLengths names cells = Inr ml \<and> length ml = length names"
  using max_lengths_go_ok [of "[0 ..< length names]" cells "[]"]
  by (fastforce simp: findMaxLengths_def)

lemma format_row_ok:
  "i + length cells \<le> length ws \<Longrightarrow> \<exists>buf'. format_row i n cells ws buf = Inr buf'"
  by (induction cells arbitrary: i buf) simp_all

lemma format_row_panic:
  "i \<le> length ws \<Longrightarrow> length ws < i + length cells \<Longrightarrow>
   format_row i n cells ws buf = Inl (IndexOutOfRange (length ws) (length ws))"
proof (induction cells arbitrary: i buf)
  case Nil
  then show ?case by simp
next
  case (Cons cell cells)
  show ?case
  proof (cases "i < length ws")
    case True
    with Cons.prems have "Suc i \<le> length ws" "length ws < Suc i + length cells" by simp_all
    from Cons.IH [OF this] True show ?thesis by simp
  next
    case False
    with Cons.prems have "i = length ws" by simp
    then show ?thesis by simp
  qed
qed

lemma tabulate_nonempty:
  "Lines g = first # rest \<Longrightarrow>
   tabulate L g names =
     Inr \<lparr>MaxLengths = [],
          Cells = [names, underlines names]
                  @ map (table_row L g (format_time L (select_unit (smallest first rest)))) (Lines g)\<rparr>"
  by (simp add: tabulate_def TimeFormatFunc_def)

text \<open>
  The row of underlines has twice as many cells as there are columns, and the widths are
  one a column: \<^verbatim>\<open>formatTableCells\<close> reads a width past the end of
  \<^verbatim>\<open>tableMaxLengths\<close> on that row, for every group that has a line.
\<close>

lemma String_nonempty_panics:
  assumes "Lines g \<noteq> []"
  shows "String L g = Inl (IndexOutOfRange (length (columnNames g)) (length (columnNames g)))"
proof -
  let ?names = "columnNames g"
  obtain first rest where fr: "Lines g = first # rest"
    using assms by (cases "Lines g") auto
  let ?f = "format_time L (select_unit (smallest first rest))"
  let ?rows = "map (table_row L g ?f) (Lines g)"
  let ?cells = "[?names, underlines ?names] @ ?rows"
  have tab: "tabulate L g ?names = Inr \<lparr>MaxLengths = [], Cells = ?cells\<rparr>"
    using tabulate_nonempty [OF fr] .
  have "\<forall>row \<in> set ?cells. length ?names \<le> length row"
    by (auto simp: length_underlines length_table_row)
  then obtain ml where ml: "findMaxLengths ?names ?cells = Inr ml" "length ml = length ?names"
    using findMaxLengths_ok by blast
  obtain buf1 where b1: "format_row 0 (length ?names) ?names ml [] = Inr buf1"
    using format_row_ok [of 0 ?names ml] ml(2) by auto
  have pos: "0 < length ?names" by (simp add: columnNames_def)
  have b2: "format_row 0 (length (underlines ?names)) (underlines ?names) ml (buf1 @ [LF])
            = Inl (IndexOutOfRange (length ml) (length ml))"
    by (rule format_row_panic) (use ml(2) pos in \<open>simp_all add: length_underlines\<close>)
  have "formatTableCells ?cells ml = Inl (IndexOutOfRange (length ml) (length ml))"
    using b1 b2 by (simp add: formatTableCells_def)
  then show ?thesis
    using assms tab ml by (simp add: String_def)
qed

text \<open>
  C2. The claim: in the rendered table of a non-empty group the second row is an underline
  row with exactly one cell a column, each a run of \<open>-\<close> as long as the column's header,
  and the data rows follow, one a record, in insertion order.

  The code: for every group with a line, \<^verbatim>\<open>tabulate\<close> returns a table whose first row
  is the column names, whose second row is one empty cell a column followed by one run of
  dashes a column (twice as many cells as columns), and whose further rows are the data
  rows in the order of the lines; \<^verbatim>\<open>String\<close> then returns no text for this table.
\<close>

theorem tabulate_underline_row:
  assumes "Lines g \<noteq> []"
  shows "\<exists>t f. tabulate L g (columnNames g) = Inr t \<and> TimeFormatFunc L g = Inr f
           \<and> Cells t ! 0 = columnNames g
           \<and> Cells t ! 1 = replicate (length (columnNames g)) []
                            @ map (\<lambda>name. Repeat CHR ''-'' (length name)) (columnNames g)
           \<and> length (Cells t ! 1) = 2 * length (columnNames g)
           \<and> drop 2 (Cells t) = map (table_row L g f) (Lines g)
           \<and> (\<forall>s. String L g \<noteq> Inr s)"
proof -
  obtain first rest where fr: "Lines g = first # rest"
    using assms by (cases "Lines g") auto
  have "\<forall>s. String L g \<noteq> Inr s"
    using String_nonempty_panics [OF assms] by simp
  then show ?thesis
    using fr by (simp add: tabulate_nonempty [OF fr] TimeFormatFunc_def underlines_eq)
qed

theorem tabulate_underline_row_witness:
  "Lines sample_group \<noteq> [] \<and>
   (\<exists>t f. tabulate sample_lib sample_group (columnNames sample_group) = Inr t
      \<and> TimeFormatFunc sample_lib sample_group = Inr f
      \<and> Cells t ! 0 = [''benchmark'', ''iter'', ''time/iter'', ''throughput'']
      \<and> Cells t ! 1 = [[], [], [], [], ''---------'', ''----'', ''---------'', ''----------'']
      \<and> length (Cells t ! 1) = 8
      \<and> drop 2 (Cells t) = map (table_row sample_lib sample_group f) (Lines sample_group)
      \<and> (\<forall>s. String sample_lib sample_group \<noteq> Inr s))"
proof -
  have h: "Lines sample_group \<noteq> []" by (simp add: sample_group_def)
  show ?thesis
    using h tabulate_underline_row [OF h, of sample_lib]
    by (simp add: columnNames_sample_group Repeat_def)
qed

text \<open>
  C8. The claim: rendering a group with no record gives the empty string, and the rendered
  output of a non-empty group ends with exactly one newline after the last data row.

  The code: \<^verbatim>\<open>String\<close> returns the empty string for a group with no line; for every
  other group it panics with an index out of range, the index and the length both the
  number of columns, so that no text and no final newline is returned.
\<close>

theorem String_empty_or_panics:
  "(Lines g = [] \<longrightarrow> String L g = Inr [])
   \<and> (Lines g \<noteq> [] \<longrightarrow>
        String L g = Inl (IndexOutOfRange (length (columnNames g)) (length (columnNames g))))"
  using String_nonempty_panics [of g L] by (simp add: String_def)

text \<open>
  The end-to-end scenario: on the measurement line followed by the terminator line,
  \<^verbatim>\<open>main\<close> prints the group that holds the record and then echoes the terminator line;
  printing the group puts no table on the standard output, since \<^verbatim>\<open>String\<close> panics.
\<close>

lemma end_to_end_scenario:
  "main sample_lib False [sample_line, ok_line] None
     = ([PrintGroup sample_group, PrintlnStdout ok_line], 0)
   \<and> stdout_text sample_lib (PrintGroup sample_group) = Inl (IndexOutOfRange 4 4)"
proof -
  have o: "okLineMatcher ok_line" by (simp add: okLineMatcher_def ok_line_def)
  have p: "ParseLine sample_lib ok_line = Inl errNotBenchLine"
    by (simp add: ParseLine_def benchLineMatcher_def ok_line_def)
  have "Lines sample_group \<noteq> []" by (simp add: sample_group_def)
  from String_nonempty_panics [OF this, of sample_lib]
  have "stdout_text sample_lib (PrintGroup sample_group) = Inl (IndexOutOfRange 4 4)"
    by (simp add: stdout_text_def columnNames_sample_group)
  then show ?thesis
    by (simp add: main_def run_lines_def step_def ParseLine_sample_line p o AddLine_sample_record)
qed

theorem String_empty_or_panics_witness:
  "Lines new_group = [] \<and> String sample_lib new_group = Inr []
   \<and> Lines sample_group \<noteq> [] \<and> String sample_lib sample_group = Inl (IndexOutOfRange 4 4)"
  using String_empty_or_panics [of new_group sample_lib]
    String_empty_or_panics [of sample_group sample_lib]
  by (simp add: new_group_def columnNames_sample_group) (simp add: sample_group_def)

section \<open>The flags of a group\<close>

lemma flag_test_bit:
  "(x AND MBPerS_flag > 0) = bit x 1"
  "(x AND AllocedBytesPerOp_flag > 0) = bit x 2"
  "(x AND AllocsPerOp_flag > 0) = bit x 3"
proof -
  have "(x AND 2 ^ n > 0) = bit x n" for n :: nat
  proof -
    have "0 \<le> x AND 2 ^ n" by simp
    moreover have "(x AND 2 ^ n = 0) = (\<not> bit x n)" by (rule and_exp_eq_0_iff_not_bit)
    ultimately show ?thesis by linarith
  qed
  from this [of 1] this [of 2] this [of 3]
  show "(x AND MBPerS_flag > 0) = bit x 1"
    "(x AND AllocedBytesPerOp_flag > 0) = bit x 2"
    "(x AND AllocsPerOp_flag > 0) = bit x 3"
    by (simp_all add: MBPerS_flag_def AllocedBytesPerOp_flag_def AllocsPerOp_flag_def)
qed

lemma foldl_AddLine:
  "foldl AddLine g ls =
     \<lparr>Lines = Lines g @ ls, GMeasured = foldl (OR) (GMeasured g) (map Measured ls)\<rparr>"
  by (induction ls arbitrary: g) (simp_all add: AddLine_def)

lemma bit_foldl_or:
  "bit (foldl (OR) (a::int) xs) n = (bit a n \<or> (\<exists>x \<in> set xs. bit x n))"
  by (induction xs arbitrary: a) (auto simp: bit_or_iff)

lemma columnNames_mem:
  "(''throughput'' \<in> set (columnNames g)) = bit (GMeasured g) 1"
  "(''bytes alloc'' \<in> set (columnNames g)) = bit (GMeasured g) 2"
  "(''allocs'' \<in> set (columnNames g)) = bit (GMeasured g) 3"
  by (simp_all add: columnNames_def flag_test_bit)

text \<open>
  C5. The claim: for every group reached by appending records, the flags of the group are
  the bitwise OR of the flags of the records appended; appending a record never loses a
  bit; and a rendered optional column (\<open>throughput\<close>, \<open>bytes alloc\<close>, \<open>allocs\<close>)
  appears exactly when its bit is set in the flags of the group.

  The code: the flags of a group reached from the empty group are the bitwise OR of the
  flags of the records appended, so that a bit is set in them exactly when a record has
  it; appending a record to any group loses no bit; and an optional column is among the
  column names that \<^verbatim>\<open>String\<close> collects exactly when its bit (of value 2, 4, 8) is set.
  These names are the header row of the table that \<^verbatim>\<open>tabulate\<close> builds, and every data
  row has one cell a column. But for every group with a line \<^verbatim>\<open>String\<close> panics and
  returns no text: no column is rendered, whether its bit is set or not.
\<close>

theorem union_of_measured_flags:
  "Lines (foldl AddLine new_group ls) = ls
   \<and> GMeasured (foldl AddLine new_group ls) = foldl (OR) 0 (map Measured ls)
   \<and> (bit (GMeasured (foldl AddLine new_group ls)) n = (\<exists>l \<in> set ls. bit (Measured l) n))
   \<and> GMeasured g AND GMeasured (AddLine g l) = GMeasured g
   \<and> (bit (GMeasured g) n \<longrightarrow> bit (GMeasured (AddLine g l)) n)
   \<and> ((''throughput'' \<in> set (columnNames g)) = bit (GMeasured g) 1)
   \<and> ((''bytes alloc'' \<in> set (columnNames g)) = bit (GMeasured g) 2)
   \<and> ((''allocs'' \<in> set (columnNames g)) = bit (GMeasured g) 3)
   \<and> (Lines g \<noteq> [] \<longrightarrow>
        (\<exists>t. tabulate L g (columnNames g) = Inr t \<and> Cells t ! 0 = columnNames g
           \<and> (\<forall>row \<in> set (drop 2 (Cells t)). length row = length (columnNames g))))
   \<and> (Lines g \<noteq> [] \<longrightarrow>
        String L g = Inl (IndexOutOfRange (length (columnNames g)) (length (columnNames g)))
        \<and> (\<forall>s. String L g \<noteq> Inr s))
   \<and> (ls \<noteq> [] \<longrightarrow> (\<forall>s. String L (foldl AddLine new_group ls) \<noteq> Inr s))"
proof -
  have a: "GMeasured g AND GMeasured (AddLine g l) = GMeasured g"
    by (rule bit_eqI) (auto simp: AddLine_def bit_and_iff bit_or_iff)
  have b: "bit (GMeasured g) n \<longrightarrow> bit (GMeasured (AddLine g l)) n"
    by (simp add: AddLine_def bit_or_iff)
  have c: "Lines g \<noteq> [] \<longrightarrow>
        (\<exists>t. tabulate L g (columnNames g) = Inr t \<and> Cells t ! 0 = columnNames g
           \<and> (\<forall>row \<in> set (drop 2 (Cells t)). length row = length (columnNames g)))"
  proof
    assume "Lines g \<noteq> []"
    then obtain first rest where fr: "Lines g = first # rest" by (cases "Lines g") auto
    show "\<exists>t. tabulate L g (columnNames g) = Inr t \<and> Cells t ! 0 = columnNames g
           \<and> (\<forall>row \<in> set (drop 2 (Cells t)). length row = length (columnNames g))"
      by (auto simp: tabulate_nonempty [OF fr] length_table_row)
  qed
  have d: "Lines g \<noteq> [] \<longrightarrow>
        String L g = Inl (IndexOutOfRange (length (columnNames g)) (length (columnNames g)))
        \<and> (\<forall>s. String L g \<noteq> Inr s)"
    using String_nonempty_panics [of g L] by simp
  have e: "ls \<noteq> [] \<longrightarrow> (\<forall>s. String L (foldl AddLine new_group ls) \<noteq> Inr s)"
  proof
    assume "ls \<noteq> []"
    then have "Lines (foldl AddLine new_group ls) \<noteq> []"
      by (simp add: foldl_AddLine new_group_def)
    from String_nonempty_panics [OF this, of L]
    show "\<forall>s. String L (foldl AddLine new_group ls) \<noteq> Inr s" by simp
  qed
  have f: "Lines (foldl AddLine new_group ls) = ls
     \<and> GMeasured (foldl AddLine new_group ls) = foldl (OR) 0 (map Measured ls)
     \<and> (bit (GMeasured (foldl AddLine new_group ls)) n = (\<exists>l \<in> set ls. bit (Measured l) n))"
    by (simp add: foldl_AddLine new_group_def bit_foldl_or)
  note f1 = f [THEN conjunct1] and f2 = f [THEN conjunct2, THEN conjunct1]
    and f3 = f [THEN conjunct2, THEN conjunct2]
  show ?thesis
    by (intro conjI f1 f2 f3 a b columnNames_mem c d e)
qed

theorem union_of_measured_flags_witness:
  "Lines (foldl AddLine new_group [sample_record, new_Benchmark ''BenchmarkBar'' 5])
     = [sample_record, new_Benchmark ''BenchmarkBar'' 5]
   \<and> GMeasured (foldl AddLine new_group [sample_record, new_Benchmark ''BenchmarkBar'' 5]) = 3
   \<and> bit (GMeasured (foldl AddLine new_group [sample_record, new_Benchmark ''BenchmarkBar'' 5])) 1
   \<and> GMeasured sample_group AND GMeasured (AddLine sample_group (new_Benchmark ''BenchmarkBar'' 5))
       = GMeasured sample_group
   \<and> bit (GMeasured sample_group) 1
   \<and> bit (GMeasured (AddLine sample_group (new_Benchmark ''BenchmarkBar'' 5))) 1
   \<and> ''throughput'' \<in> set (columnNames sample_group)
   \<and> ''bytes alloc'' \<notin> set (columnNames sample_group)
   \<and> ''allocs'' \<notin> set (columnNames sample_group)
   \<and> Lines sample_group \<noteq> []
   \<and> (\<exists>t. tabulate sample_lib sample_group (columnNames sample_group) = Inr t
        \<and> Cells t ! 0 = [''benchmark'', ''iter'', ''time/iter'', ''throughput''])
   \<and> String sample_lib sample_group = Inl (IndexOutOfRange 4 4)
   \<and> (\<forall>s. String sample_lib sample_group \<noteq> Inr s)
   \<and> [sample_record, new_Benchmark ''BenchmarkBar'' 5] \<noteq> []
   \<and> (\<forall>s. String sample_lib
            (foldl AddLine new_group [sample_record, new_Benchmark ''BenchmarkBar'' 5]) \<noteq> Inr s)"
proof -
  have m: "GMeasured sample_group = 3" "Lines sample_group \<noteq> []"
    by (simp_all add: sample_group_def)
  have b: "bit (3::int) 1" "\<not> bit (3::int) 2" "\<not> bit (3::int) 3"
    by (simp_all add: bit_iff_odd)
  have r: "Measured sample_record = 3" "Measured (new_Benchmark ''BenchmarkBar'' 5) = 0"
    by (simp_all add: sample_record_def new_Benchmark_def)
  show ?thesis
    using union_of_measured_flags
      [of "[sample_record, new_Benchmark ''BenchmarkBar'' 5]" 1 sample_group
        "new_Benchmark ''BenchmarkBar'' 5" sample_lib]
    by (simp add: m b r columnNames_sample_group) blast
qed

section \<open>Lines with fewer than three fields between tabs\<close>

lemma benchLine_not_ok: "benchLineMatcher s \<Longrightarrow> \<not> okLineMatcher s"
proof
  assume b: "benchLineMatcher s" and o: "okLineMatcher s"
  from b have "take 9 s = ''Benchmark''" by (simp add: benchLineMatcher_def)
  then have "take 2 (take 9 s) = ''Be''" by simp
  then have "take 2 s = ''Be''" by simp
  with o show False by (simp add: okLineMatcher_def)
qed

text \<open>
  C4, as stated: a line that passes the pre-filter and has fewer than three fields between
  tabs fails with a parse error of its own, reported on the diagnostic stream, and is not
  classified as a pass-through line. On \<open>short_line\<close> the code returns
  \<^verbatim>\<open>errNotBenchLine\<close>, and \<^verbatim>\<open>main\<close> writes the line on the standard output and
  nothing on the standard error.
\<close>

theorem too_few_fields_counterexample:
  "benchLineMatcher short_line \<and> length (Split_on TAB short_line) = 2
   \<and> ParseLine sample_lib short_line = Inl errNotBenchLine
   \<and> step sample_lib False (new_group, []) short_line = (new_group, [PrintlnStdout short_line])"
  by (simp add: short_line_def benchLineMatcher_def is_digit_def ParseLine_def step_def
      okLineMatcher_def)

text \<open>
  C4, amended: for every line that passes the pre-filter and has fewer than three fields
  between tabs, \<^verbatim>\<open>ParseLine\<close> returns \<^verbatim>\<open>errNotBenchLine\<close>, the outcome of a line
  that is no benchmark line, and \<^verbatim>\<open>main\<close> handles the line as a pass-through line: it
  is written on the standard output unless pass-through is suppressed, no notice is
  written, no group is printed and the current group is unchanged.
\<close>

theorem too_few_fields_not_bench_line:
  assumes "benchLineMatcher line" and "length (Split_on TAB line) < 3"
  shows "ParseLine L line = Inl errNotBenchLine
    \<and> step L noPassthrough (g, out) line
        = (g, if noPassthrough then out else out @ [PrintlnStdout line])"
  using assms benchLine_not_ok [OF assms(1)] by (simp add: ParseLine_def step_def)

lemma benchLineMatcher_short_line: "benchLineMatcher short_line"
  by (simp add: short_line_def benchLineMatcher_def is_digit_def)

theorem too_few_fields_not_bench_line_witness:
  "benchLineMatcher short_line \<and> length (Split_on TAB short_line) < 3
   \<and> ParseLine sample_lib short_line = Inl errNotBenchLine
   \<and> step sample_lib True (sample_group, []) short_line = (sample_group, [])"
proof -
  have h: "length (Split_on TAB short_line) < 3" by (simp add: short_line_def)
  show ?thesis
    using too_few_fields_not_bench_line
      [OF benchLineMatcher_short_line h, of sample_lib True sample_group "[]"]
      benchLineMatcher_short_line h
    by simp
qed

section \<open>Metric fields with an unknown unit\<close>

lemma ParseLine_valid:
  assumes "benchLineMatcher line" and "3 \<le> length (Split_on TAB line)"
    and "Fields line = name # iters # rest" and "HasPrefix name ''Benchmark''"
    and "Atoi iters = Some n"
  shows "ParseLine L line = Inr (parse_pairs L (Fields line) (new_Benchmark name n))"
    and "bench_ParseLine L line = Inr (parse_pairs L (Fields line) (new_Benchmark name n))"
  using assms by (simp_all add: ParseLine_def bench_ParseLine_def)

lemma step_record:
  "ParseLine L line = Inr b \<Longrightarrow> step L np (g, out) line = (AddLine g b, out)"
  by (simp add: step_def)

lemma parseMeasurement_unknown_unit:
  "unit \<notin> {''ns/op'', ''MB/s'', ''B/op'', ''allocs/op''} \<Longrightarrow> parseMeasurement L b quant unit = b"
  by (simp add: parseMeasurement_def)

lemma Fields_widgets_line:
  "Fields widgets_line = [''BenchmarkFoo'', ''10'', ''5'', ''widgets/op'']"
  by (simp add: Fields_def widgets_line_def ascii_space_def)

lemma benchLineMatcher_widgets_line: "benchLineMatcher widgets_line"
  by (simp add: benchLineMatcher_def widgets_line_def is_digit_def)

lemma Atoi_10: "Atoi ''10'' = Some 10"
  by (simp add: Atoi_def is_digit_def dec_val_def)

lemma parse_pairs_widgets:
  "parse_pairs L [''BenchmarkFoo'', ''10'', ''5'', ''widgets/op''] b = b"
  by (simp add: parse_pairs_def parseMeasurement_def upt_rec [of _ "numeral n" for n])

text \<open>
  C3, as stated: a line that passes the pre-filter and has a metric field with a unit label
  other than the four known ones fails to parse, no record is added, one notice is written
  and the line is echoed. On \<open>widgets_line\<close> the parse succeeds, \<^verbatim>\<open>main\<close> appends
  the record (with no flag set) to the current group and writes nothing.
\<close>

theorem unknown_unit_counterexample:
  "benchLineMatcher widgets_line
   \<and> Fields widgets_line = [''BenchmarkFoo'', ''10'', ''5'', ''widgets/op'']
   \<and> ParseLine sample_lib widgets_line = Inr (new_Benchmark ''BenchmarkFoo'' 10)
   \<and> step sample_lib False (new_group, []) widgets_line
       = (\<lparr>Lines = [new_Benchmark ''BenchmarkFoo'' 10], GMeasured = 0\<rparr>, [])"
proof -
  have p: "ParseLine sample_lib widgets_line = Inr (new_Benchmark ''BenchmarkFoo'' 10)"
    by (simp add: ParseLine_def benchLineMatcher_widgets_line bench_ParseLine_def
        Fields_widgets_line HasPrefix_def Atoi_10 parse_pairs_widgets)
       (simp add: widgets_line_def)
  show ?thesis
    using p benchLineMatcher_widgets_line Fields_widgets_line
    by (simp add: step_def AddLine_def new_group_def new_Benchmark_def)
qed

text \<open>
  C3, amended: for every line that passes the pre-filter, has at least three fields between
  tabs, a first white-space-separated field that starts with \<^verbatim>\<open>Benchmark\<close> and a
  second one that \<^verbatim>\<open>Atoi\<close> accepts, the parse succeeds whatever the unit labels of
  the metric fields are; \<^verbatim>\<open>main\<close> appends the record to the current group and writes
  nothing, neither a notice nor the line; and a metric field whose unit label is none of
  \<^verbatim>\<open>ns/op\<close>, \<^verbatim>\<open>MB/s\<close>, \<^verbatim>\<open>B/op\<close>, \<^verbatim>\<open>allocs/op\<close> leaves the record as
  it is.
\<close>

theorem unknown_unit_is_skipped:
  assumes "benchLineMatcher line" and "3 \<le> length (Split_on TAB line)"
    and "Fields line = name # iters # rest" and "HasPrefix name ''Benchmark''"
    and "Atoi iters = Some n"
  shows "ParseLine L line = Inr (parse_pairs L (Fields line) (new_Benchmark name n))
    \<and> step L noPassthrough (g, out) line
        = (AddLine g (parse_pairs L (Fields line) (new_Benchmark name n)), out)
    \<and> (unit \<notin> {''ns/op'', ''MB/s'', ''B/op'', ''allocs/op''}
         \<longrightarrow> parseMeasurement L b quant unit = b)"
  using ParseLine_valid(1) [OF assms] step_record parseMeasurement_unknown_unit by simp

theorem unknown_unit_is_skipped_witness:
  "benchLineMatcher widgets_line \<and> 3 \<le> length (Split_on TAB widgets_line)
   \<and> Fields widgets_line = [''BenchmarkFoo'', ''10'', ''5'', ''widgets/op'']
   \<and> HasPrefix ''BenchmarkFoo'' ''Benchmark'' \<and> Atoi ''10'' = Some 10
   \<and> ParseLine sample_lib widgets_line = Inr (new_Benchmark ''BenchmarkFoo'' 10)
   \<and> step sample_lib True (sample_group, [PrintlnStdout ok_line]) widgets_line
       = (AddLine sample_group (new_Benchmark ''BenchmarkFoo'' 10), [PrintlnStdout ok_line])
   \<and> ''widgets/op'' \<notin> {''ns/op'', ''MB/s'', ''B/op'', ''allocs/op''}
   \<and> parseMeasurement sample_lib sample_record ''5'' ''widgets/op'' = sample_record"
proof -
  have h2: "3 \<le> length (Split_on TAB widgets_line)" by (simp add: widgets_line_def)
  have h4: "HasPrefix ''BenchmarkFoo'' ''Benchmark''" by (simp add: HasPrefix_def)
  show ?thesis
    using unknown_unit_is_skipped [OF benchLineMatcher_widgets_line h2 Fields_widgets_line h4 Atoi_10,
        of sample_lib True sample_group "[PrintlnStdout ok_line]" "''widgets/op''" sample_record "''5''"]
      benchLineMatcher_widgets_line h2 h4 Atoi_10
    by (simp add: Fields_widgets_line parse_pairs_widgets)
qed

section \<open>Metric fields with a quantity that does not parse\<close>

lemma foldl_invariant:
  assumes "P b0" and "\<And>b i. P b \<Longrightarrow> i \<in> set idx \<Longrightarrow> P (f b i)"
  shows "P (foldl f b0 idx)"
  using assms by (induction idx arbitrary: b0) simp_all



lemma parseMeasurement_Name_N:
  "Name (parseMeasurement L b q u) = Name b \<and> N (parseMeasurement L b q u) = N b"
  by (simp add: parseMeasurement_def split: option.splits)





lemma parse_pairs_Name_N:
  "Name (parse_pairs L flds b) = Name b \<and> N (parse_pairs L flds b) = N b"
  unfolding parse_pairs_def
  by (rule foldl_invariant [where P = "\<lambda>b'. Name b' = Name b \<and> N b' = N b"])
     (simp_all add: parseMeasurement_Name_N)











section \<open>The end of the input\<close>

lemma parsed_records_Cons:
  "parsed_records L (l # ls) =
     (case ParseLine L l of Inr b \<Rightarrow> [b] | Inl e \<Rightarrow> []) @ parsed_records L ls"
  by (simp add: parsed_records_def List.map_filter_simps split: sum.splits)

lemma step_without_ok:
  assumes "\<not> okLineMatcher l"
  shows "\<exists>es. step L np (g, out) l
           = (foldl AddLine g (case ParseLine L l of Inr b \<Rightarrow> [b] | Inl e \<Rightarrow> []), out @ es)
         \<and> (\<forall>e \<in> set es. \<not> is_PrintGroup e)"
proof (cases "ParseLine L l")
  case (Inr b)
  then show ?thesis by (simp add: step_def)
next
  case (Inl err)
  show ?thesis
  proof (cases "err = errNotBenchLine")
    case True
    with Inl assms show ?thesis by (simp add: step_def is_PrintGroup_def)
  next
    case False
    with Inl have "step L np (g, out) l
      = (g, out @ [PrintlnStderr ''prettybench unrecognized line:'', PrintlnStdout l])"
      by (simp add: step_def)
    with Inl show ?thesis by (simp add: is_PrintGroup_def)
  qed
qed

lemma run_without_ok:
  assumes "\<forall>l \<in> set suf. \<not> okLineMatcher l"
  shows "\<exists>es. foldl (step L np) (g, out) suf = (foldl AddLine g (parsed_records L suf), out @ es)
         \<and> (\<forall>e \<in> set es. \<not> is_PrintGroup e)"
  using assms
proof (induction suf arbitrary: g out)
  case Nil
  then show ?case by (simp add: parsed_records_def List.map_filter_simps)
next
  case (Cons l suf)
  let ?g1 = "foldl AddLine g (case ParseLine L l of Inr b \<Rightarrow> [b] | Inl e \<Rightarrow> [])"
  from Cons.prems have "\<not> okLineMatcher l" by simp
  from step_without_ok [OF this, of L np g out]
  obtain es1 where s1: "step L np (g, out) l = (?g1, out @ es1)"
    and e1: "\<forall>e \<in> set es1. \<not> is_PrintGroup e" by blast
  from Cons.prems have "\<forall>l \<in> set suf. \<not> okLineMatcher l" by simp
  from Cons.IH [OF this, of ?g1 "out @ es1"]
  obtain es2 where s2: "foldl (step L np) (?g1, out @ es1) suf
        = (foldl AddLine ?g1 (parsed_records L suf), (out @ es1) @ es2)"
    and e2: "\<forall>e \<in> set es2. \<not> is_PrintGroup e" by blast
  have "foldl (step L np) (g, out) (l # suf)
        = (foldl AddLine g (parsed_records L (l # suf)), out @ (es1 @ es2))"
    using s1 s2 by (simp add: parsed_records_Cons)
  moreover have "\<forall>e \<in> set (es1 @ es2). \<not> is_PrintGroup e"
    using e1 e2 by auto
  ultimately show ?case by blast
qed

text \<open>
  C9. Whatever lines came before, lines of which none matches \<^verbatim>\<open>okLineMatcher\<close> make
  \<^verbatim>\<open>main\<close> print no group: all that \<^verbatim>\<open>main\<close> writes after the events of the
  earlier lines, up to and including the end of the input, is echoes and notices. The
  records parsed from these lines are appended to the current group, which the loop ends
  with and which \<^verbatim>\<open>main\<close> does not print.
\<close>

theorem trailing_group_never_printed:
  assumes "\<forall>l \<in> set suf. \<not> okLineMatcher l"
  shows "\<exists>es. fst (main L noPassthrough (pre @ suf) scan_err)
             = snd (run_lines L noPassthrough pre) @ es
         \<and> (\<forall>e \<in> set es. \<not> is_PrintGroup e)
         \<and> fst (run_lines L noPassthrough (pre @ suf))
             = foldl AddLine (fst (run_lines L noPassthrough pre)) (parsed_records L suf)"
proof -
  obtain g out where p: "run_lines L noPassthrough pre = (g, out)"
    by (cases "run_lines L noPassthrough pre")
  from run_without_ok [OF assms, of L noPassthrough g out]
  obtain es where r: "foldl (step L noPassthrough) (g, out) suf
        = (foldl AddLine g (parsed_records L suf), out @ es)"
    and e: "\<forall>e \<in> set es. \<not> is_PrintGroup e" by blast
  have all: "run_lines L noPassthrough (pre @ suf)
        = (foldl AddLine g (parsed_records L suf), out @ es)"
    using p r by (simp add: run_lines_def)
  show ?thesis
  proof (cases scan_err)
    case None
    with all p e show ?thesis by (simp add: main_def)
  next
    case (Some err)
    have "\<forall>e \<in> set (es @ [PrintlnStdout err]). \<not> is_PrintGroup e"
      using e by (simp add: is_PrintGroup_def)
    moreover have "fst (main L noPassthrough (pre @ suf) scan_err)
        = snd (run_lines L noPassthrough pre) @ (es @ [PrintlnStdout err])"
      using all p Some by (simp add: main_def)
    moreover have "fst (run_lines L noPassthrough (pre @ suf))
             = foldl AddLine (fst (run_lines L noPassthrough pre)) (parsed_records L suf)"
      using all p by simp
    ultimately show ?thesis by blast
  qed
qed

lemma okLineMatcher_ok_line: "okLineMatcher ok_line"
  by (simp add: okLineMatcher_def ok_line_def)

lemma not_ok_sample_line: "\<not> okLineMatcher sample_line"
  by (rule benchLine_not_ok) (rule benchLineMatcher_sample_line)

lemma ParseLine_ok_line: "ParseLine sample_lib ok_line = Inl errNotBenchLine"
  by (simp add: ParseLine_def benchLineMatcher_def ok_line_def)

lemma run_sample: "run_lines sample_lib False [sample_line, ok_line]
    = (new_group, [PrintGroup sample_group, PrintlnStdout ok_line])"
  by (simp add: run_lines_def step_def ParseLine_sample_line ParseLine_ok_line
      okLineMatcher_ok_line AddLine_sample_record)

lemma run_sample3: "run_lines sample_lib False [sample_line, ok_line, sample_line]
    = (sample_group, [PrintGroup sample_group, PrintlnStdout ok_line])"
  by (simp add: run_lines_def step_def ParseLine_sample_line ParseLine_ok_line
      okLineMatcher_ok_line AddLine_sample_record)

theorem trailing_group_never_printed_witness:
  "\<not> okLineMatcher sample_line
   \<and> fst (main sample_lib False ([sample_line, ok_line] @ [sample_line]) None)
       = [PrintGroup sample_group, PrintlnStdout ok_line]
   \<and> snd (run_lines sample_lib False [sample_line, ok_line])
       = [PrintGroup sample_group, PrintlnStdout ok_line]
   \<and> fst (run_lines sample_lib False ([sample_line, ok_line] @ [sample_line])) = sample_group
   \<and> parsed_records sample_lib [sample_line] = [sample_record]"
proof -
  have h: "\<forall>l \<in> set [sample_line]. \<not> okLineMatcher l"
    using not_ok_sample_line by simp
  have pr: "parsed_records sample_lib [sample_line] = [sample_record]"
    by (simp add: parsed_records_def List.map_filter_simps ParseLine_sample_line)
  show ?thesis
    using trailing_group_never_printed [OF h, of sample_lib False "[sample_line, ok_line]" None]
      not_ok_sample_line pr
    by (simp add: run_sample run_sample3 main_def)
qed

section \<open>Rendered text and the line classifier\<close>

lemma String_Inr_empty: "String L g = Inr s \<Longrightarrow> s = []"
  using String_nonempty_panics [of g L] by (cases "Lines g = []") (simp_all add: String_def)

lemma Split_on_all_subset: "\<forall>l \<in> set (Split_on c s). set l \<subseteq> set s"
  by (induction s) (auto split: list.splits)

lemma Split_on_subset: "l \<in> set (Split_on c s) \<Longrightarrow> set l \<subseteq> set s"
  using Split_on_all_subset by blast

lemma benchLineMatcher_has_tab: "benchLineMatcher l \<Longrightarrow> TAB \<in> set l"
proof -
  assume "benchLineMatcher l"
  then have "dropWhile (\<lambda>c. c \<noteq> TAB) (takeWhile (\<lambda>c. c \<noteq> LF) (drop 9 l)) \<noteq> []"
    by (simp add: benchLineMatcher_def Let_def)
  then obtain x where "x \<in> set (takeWhile (\<lambda>c. c \<noteq> LF) (drop 9 l))" "\<not> x \<noteq> TAB"
    by (auto simp: dropWhile_eq_Nil_conv)
  then have "TAB \<in> set (drop 9 l)" by (auto dest: set_takeWhileD)
  then show ?thesis by (auto dest: in_set_dropD)
qed

lemma getFormat_no_tab: "TAB \<notin> set cell \<Longrightarrow> TAB \<notin> set (getFormat i n w cell)"
  by (simp add: getFormat_def pad_left_def pad_right_def)

lemma format_row_no_tab:
  "format_row i n cells ws buf = Inr s \<Longrightarrow> TAB \<notin> set buf \<Longrightarrow> \<forall>c \<in> set cells. TAB \<notin> set c
   \<Longrightarrow> TAB \<notin> set s"
proof (induction cells arbitrary: i buf)
  case Nil
  then show ?case by simp
next
  case (Cons cell cells)
  from Cons.prems(1) have "i < length ws"
    and r: "format_row (Suc i) n cells ws (buf @ getFormat i n (ws ! i) cell) = Inr s"
    by (simp_all split: if_splits)
  have "TAB \<notin> set (buf @ getFormat i n (ws ! i) cell)"
    using Cons.prems(2,3) getFormat_no_tab by simp
  from Cons.IH [OF r this] Cons.prems(3) show ?case by simp
qed

lemma format_rows_no_tab:
  "format_rows rows ws buf = Inr s \<Longrightarrow> TAB \<notin> set buf
   \<Longrightarrow> \<forall>row \<in> set rows. \<forall>c \<in> set row. TAB \<notin> set c \<Longrightarrow> TAB \<notin> set s"
proof (induction rows arbitrary: buf)
  case Nil
  then show ?case by simp
next
  case (Cons row rows)
  from Cons.prems(1) obtain buf' where b: "format_row 0 (length row) row ws buf = Inr buf'"
    and r: "format_rows rows ws (buf' @ [LF]) = Inr s"
    by (auto split: sum.splits)
  have "TAB \<notin> set buf'"
    using format_row_no_tab [OF b Cons.prems(2)] Cons.prems(3) by simp
  then have "TAB \<notin> set (buf' @ [LF])" by simp
  from Cons.IH [OF r this] Cons.prems(3) show ?case by simp
qed

lemma space_len_0_not_tab: "space_len (c # cs) = 0 \<Longrightarrow> c \<noteq> TAB"
proof
  assume "space_len (c # cs) = 0" and "c = TAB"
  moreover have "space_len (TAB # cs) = 1" by (simp add: ascii_space_def)
  ultimately show False by simp
qed

lemma fields_go_no_tab:
  "TAB \<notin> set cur \<Longrightarrow> \<forall>f \<in> set (fields_go k cur s). TAB \<notin> set f"
proof (induction k cur s rule: fields_go.induct)
  case (1 k cur)
  then show ?case by simp
next
  case (2 k cur c cs)
  then show ?case by simp
next
  case (3 cur c cs)
  show ?case
  proof (cases "space_len (c # cs)")
    case 0
    then have "c \<noteq> TAB" by (rule space_len_0_not_tab)
    with 3 0 show ?thesis by simp
  next
    case (Suc n)
    with 3 show ?thesis by simp
  qed
qed

lemma Fields_no_tab: "f \<in> set (Fields s) \<Longrightarrow> TAB \<notin> set f"
  using fields_go_no_tab [of "[]" 0 s] by (simp add: Fields_def)

lemma bench_ParseLine_Name:
  assumes "bench_ParseLine L line = Inr b"
  shows "Name b \<in> set (Fields line)"
proof (cases "length (Fields line) < 2")
  case True
  with assms show ?thesis by (simp add: bench_ParseLine_def)
next
  case len: False
  show ?thesis
  proof (cases "Atoi (Fields line ! 1)")
    case None
    with assms len show ?thesis by (simp add: bench_ParseLine_def Let_def split: if_splits)
  next
    case (Some n)
    with assms len have "b = parse_pairs L (Fields line) (new_Benchmark (Fields line ! 0) n)"
      by (simp add: bench_ParseLine_def Let_def split: if_splits)
    then have "Name b = Fields line ! 0"
      using parse_pairs_Name_N [of L "Fields line" "new_Benchmark (Fields line ! 0) n"]
      by (simp add: new_Benchmark_def)
    moreover from len have "0 < length (Fields line)" by linarith
    then have "Fields line ! 0 \<in> set (Fields line)" by (rule nth_mem)
    ultimately show ?thesis by simp
  qed
qed

lemma ParseLine_Name_no_tab: "ParseLine L line = Inr b \<Longrightarrow> TAB \<notin> set (Name b)"
proof -
  assume "ParseLine L line = Inr b"
  then have "bench_ParseLine L line = Inr b"
    by (simp add: ParseLine_def split: if_splits)
  then show ?thesis by (intro Fields_no_tab bench_ParseLine_Name)
qed

lemma digit_char_is_digit: "d < 10 \<Longrightarrow> is_digit (digit_char d)"
  unfolding is_digit_def digit_char_def by (rule nth_mem) simp

lemma is_digit_not_tab: "is_digit c \<Longrightarrow> c \<noteq> TAB"
  by (auto simp: is_digit_def)

lemma show_nat_go_digits:
  "\<forall>c \<in> set acc. is_digit c \<Longrightarrow> \<forall>c \<in> set (show_nat_go n acc). is_digit c"
proof (induction n acc rule: show_nat_go.induct)
  case (1 n acc)
  show ?case
  proof (cases "n < 10")
    case True
    then have "show_nat_go n acc = digit_char n # acc"
      by (subst show_nat_go.simps) simp
    moreover from True have "is_digit (digit_char n)" by (rule digit_char_is_digit)
    ultimately show ?thesis using "1.prems" by simp
  next
    case False
    then have eq: "show_nat_go n acc = show_nat_go (n div 10) (digit_char (n mod 10) # acc)"
      by (subst show_nat_go.simps) simp
    have "is_digit (digit_char (n mod 10))" by (rule digit_char_is_digit) simp
    with "1.prems" have "\<forall>c \<in> set (digit_char (n mod 10) # acc). is_digit c" by simp
    from "1.IH" [OF False this] eq show ?thesis by simp
  qed
qed

lemma show_nat_no_tab: "TAB \<notin> set (show_nat n)"
  using show_nat_go_digits [of "[]" n] is_digit_not_tab by (auto simp: show_nat_def)

lemma FormatIterations_no_tab: "TAB \<notin> set (FormatIterations i)"
  by (simp add: FormatIterations_def FormatInt_def show_nat_no_tab)

lemma format_time_no_tab:
  "\<forall>x. TAB \<notin> set (Sprintf_2f L x) \<Longrightarrow> TAB \<notin> set (format_time L u ns)"
  by (cases u) simp_all

lemma optional_cells_no_tab:
  assumes "\<forall>x. TAB \<notin> set (Sprintf_2f L x)"
  shows "TAB \<notin> set (FormatMegaBytesPerSecond L line)"
    and "TAB \<notin> set (FormatBytesAllocPerOp line)"
    and "TAB \<notin> set (FormatAllocsPerOp line)"
  using assms
  by (simp_all add: FormatMegaBytesPerSecond_def FormatBytesAllocPerOp_def FormatAllocsPerOp_def
      show_nat_no_tab)

lemma set_table_row:
  "set (table_row L g f line)
     \<subseteq> {Name line, FormatIterations (N line), f (NsPerOp line),
         FormatMegaBytesPerSecond L line, FormatBytesAllocPerOp line, FormatAllocsPerOp line}"
  by (auto simp: table_row_def)

lemma table_row_no_tab:
  assumes "\<forall>x. TAB \<notin> set (Sprintf_2f L x)" and "TAB \<notin> set (Name line)"
  shows "\<forall>c \<in> set (table_row L g (format_time L u) line). TAB \<notin> set c"
proof
  fix c assume "c \<in> set (table_row L g (format_time L u) line)"
  with set_table_row [of L g "format_time L u" line]
  have "c \<in> {Name line, FormatIterations (N line), format_time L u (NsPerOp line),
         FormatMegaBytesPerSecond L line, FormatBytesAllocPerOp line, FormatAllocsPerOp line}"
    by blast
  then show "TAB \<notin> set c"
    using assms(2) FormatIterations_no_tab [of "N line"]
      format_time_no_tab [OF assms(1), of u "NsPerOp line"]
      optional_cells_no_tab [OF assms(1), of line]
    by blast
qed

lemma columnNames_no_tab: "\<forall>c \<in> set (columnNames g). TAB \<notin> set c"
  by (auto simp: columnNames_def)

lemma underlines_no_tab: "\<forall>c \<in> set (underlines names). TAB \<notin> set c"
  by (auto simp: underlines_eq Repeat_def)

lemma tabulate_no_tab:
  assumes lib: "\<forall>x. TAB \<notin> set (Sprintf_2f L x)"
    and names: "\<forall>b \<in> set (Lines g). TAB \<notin> set (Name b)"
    and t: "tabulate L g (columnNames g) = Inr t"
  shows "\<forall>row \<in> set (Cells t). \<forall>c \<in> set row. TAB \<notin> set c"
proof (cases "Lines g")
  case Nil
  with t show ?thesis by (simp add: tabulate_def TimeFormatFunc_def)
next
  case (Cons first rest)
  from t tabulate_nonempty [OF Cons, of L "columnNames g"]
  have c: "Cells t = [columnNames g, underlines (columnNames g)]
      @ map (table_row L g (format_time L (select_unit (smallest first rest)))) (Lines g)"
    by auto
  show ?thesis
    unfolding c using columnNames_no_tab underlines_no_tab table_row_no_tab [OF lib] names
    by auto
qed

lemma sample_Sprintf_2f_no_tab: "TAB \<notin> set (sample_Sprintf_2f x)"
proof (cases x)
  case (Finite r)
  have d: "c \<in> set (two_digits n) \<Longrightarrow> c \<noteq> TAB" for c n
    using digit_char_is_digit [of "n div 10 mod 10"] digit_char_is_digit [of "n mod 10"]
    by (auto simp: two_digits_def dest: is_digit_not_tab)
  show ?thesis
    using d show_nat_no_tab by (auto simp: Finite Let_def)
qed simp_all

text \<open>
  C7. No line of a text that \<^verbatim>\<open>String\<close> returns matches \<^verbatim>\<open>benchLineMatcher\<close>; the
  lines of a text are its pieces between newlines. \<^verbatim>\<open>String\<close> returns a text for the
  empty group only (see C2), so the second and third part state the same of the steps of
  rendering themselves. From cells that hold no tab \<^verbatim>\<open>formatTableCells\<close> returns a
  text that holds no tab, hence no line that matches, since the pattern asks for a tab.
  And the cells of the table that \<^verbatim>\<open>tabulate\<close> builds hold no tab, for every group
  of records that \<^verbatim>\<open>ParseLine\<close> returned and every library whose verb \<^verbatim>\<open>%.2f\<close>
  prints no tab.
\<close>

theorem rendered_lines_not_bench_lines:
  "(String L g = Inr s \<longrightarrow> (\<forall>l \<in> set (Split_on LF s). \<not> benchLineMatcher l))
   \<and> ((\<forall>row \<in> set cells. \<forall>c \<in> set row. TAB \<notin> set c) \<and> formatTableCells cells ws = Inr s'
        \<longrightarrow> (\<forall>l \<in> set (Split_on LF s'). \<not> benchLineMatcher l))
   \<and> ((\<forall>x. TAB \<notin> set (Sprintf_2f L x))
        \<and> (\<forall>b \<in> set (Lines g). \<exists>line. ParseLine L line = Inr b)
        \<and> tabulate L g (columnNames g) = Inr t
        \<longrightarrow> (\<forall>row \<in> set (Cells t). \<forall>c \<in> set row. TAB \<notin> set c))"
proof -
  have a: "String L g = Inr s \<longrightarrow> (\<forall>l \<in> set (Split_on LF s). \<not> benchLineMatcher l)"
    by (auto dest!: String_Inr_empty simp: benchLineMatcher_def)
  have b: "(\<forall>row \<in> set cells. \<forall>c \<in> set row. TAB \<notin> set c) \<and> formatTableCells cells ws = Inr s'
        \<longrightarrow> (\<forall>l \<in> set (Split_on LF s'). \<not> benchLineMatcher l)"
  proof (intro impI ballI notI, elim conjE)
    fix l
    assume c: "\<forall>row \<in> set cells. \<forall>c \<in> set row. TAB \<notin> set c"
      and f: "formatTableCells cells ws = Inr s'"
      and l: "l \<in> set (Split_on LF s')" and m: "benchLineMatcher l"
    from f have "format_rows cells ws [] = Inr s'" by (simp add: formatTableCells_def)
    from format_rows_no_tab [OF this _ c] have "TAB \<notin> set s'" by simp
    moreover from m have "TAB \<in> set l" by (rule benchLineMatcher_has_tab)
    moreover from l have "set l \<subseteq> set s'" by (rule Split_on_subset)
    ultimately show False by auto
  qed
  have c: "(\<forall>x. TAB \<notin> set (Sprintf_2f L x))
        \<and> (\<forall>b \<in> set (Lines g). \<exists>line. ParseLine L line = Inr b)
        \<and> tabulate L g (columnNames g) = Inr t
        \<longrightarrow> (\<forall>row \<in> set (Cells t). \<forall>c \<in> set row. TAB \<notin> set c)"
  proof (intro impI, elim conjE)
    assume lib: "\<forall>x. TAB \<notin> set (Sprintf_2f L x)"
      and p: "\<forall>b \<in> set (Lines g). \<exists>line. ParseLine L line = Inr b"
      and t: "tabulate L g (columnNames g) = Inr t"
    from p have "\<forall>b \<in> set (Lines g). TAB \<notin> set (Name b)"
      using ParseLine_Name_no_tab by blast
    from tabulate_no_tab [OF lib this t]
    show "\<forall>row \<in> set (Cells t). \<forall>c \<in> set row. TAB \<notin> set c" .
  qed
  from a b c show ?thesis by (intro conjI)
qed

lemma replicate_numeral: "replicate (numeral k) x = x # replicate (pred_numeral k) x"
  by (simp add: numeral_eq_Suc)

theorem rendered_lines_not_bench_lines_witness:
  "String sample_lib new_group = Inr [] \<and> Split_on LF [] = [[]] \<and> \<not> benchLineMatcher []
   \<and> TAB \<notin> set ''benchmark'' \<and> TAB \<notin> set ''iter'' \<and> TAB \<notin> set ''BenchmarkFoo''
   \<and> TAB \<notin> set ''12''
   \<and> formatTableCells sample_cells [12, 4]
       = Inr (''benchmark      iter'' @ [LF] @ ''BenchmarkFoo     12'' @ [LF])
   \<and> Split_on LF (''benchmark      iter'' @ [LF] @ ''BenchmarkFoo     12'' @ [LF])
       = [''benchmark      iter'', ''BenchmarkFoo     12'', []]
   \<and> \<not> benchLineMatcher ''benchmark      iter''
   \<and> \<not> benchLineMatcher ''BenchmarkFoo     12''
   \<and> ParseLine sample_lib sample_line = Inr sample_record
   \<and> (\<exists>t. tabulate sample_lib sample_group (columnNames sample_group) = Inr t
        \<and> (\<forall>row \<in> set (Cells t). \<forall>c \<in> set row. TAB \<notin> set c))"
proof -
  have e: "String sample_lib new_group = Inr []"
    by (simp add: String_def new_group_def)
  have f: "formatTableCells sample_cells [12, 4]
       = Inr (''benchmark      iter'' @ [LF] @ ''BenchmarkFoo     12'' @ [LF])"
    by (simp add: formatTableCells_def sample_cells_def getFormat_def pad_left_def pad_right_def
        RuneCountInString_def rune_len_def replicate_numeral)
  have c: "\<forall>row \<in> set sample_cells. \<forall>c \<in> set row. TAB \<notin> set c"
    by (simp add: sample_cells_def)
  have lib: "\<forall>x. TAB \<notin> set (Sprintf_2f sample_lib x)"
    by (simp add: sample_lib_def sample_Sprintf_2f_no_tab)
  have p: "\<forall>b \<in> set (Lines sample_group). \<exists>line. ParseLine sample_lib line = Inr b"
    using ParseLine_sample_line by (auto simp: sample_group_def)
  have "Lines sample_group = sample_record # []" by (simp add: sample_group_def)
  from tabulate_nonempty [OF this, of sample_lib "columnNames sample_group"]
  obtain t where t: "tabulate sample_lib sample_group (columnNames sample_group) = Inr t"
    by blast
  note T = rendered_lines_not_bench_lines
      [of sample_lib new_group "[]" sample_cells "[12, 4]"
        "''benchmark      iter'' @ [LF] @ ''BenchmarkFoo     12'' @ [LF]"]
  note T' = rendered_lines_not_bench_lines [where L = sample_lib and g = sample_group and t = t]
  have "\<exists>t. tabulate sample_lib sample_group (columnNames sample_group) = Inr t
        \<and> (\<forall>row \<in> set (Cells t). \<forall>c \<in> set row. TAB \<notin> set c)"
    using T' lib p t by blast
  moreover have "String sample_lib new_group = Inr [] \<and> Split_on LF [] = [[]]
   \<and> \<not> benchLineMatcher []
   \<and> TAB \<notin> set ''benchmark'' \<and> TAB \<notin> set ''iter'' \<and> TAB \<notin> set ''BenchmarkFoo''
   \<and> TAB \<notin> set ''12''
   \<and> formatTableCells sample_cells [12, 4]
       = Inr (''benchmark      iter'' @ [LF] @ ''BenchmarkFoo     12'' @ [LF])
   \<and> Split_on LF (''benchmark      iter'' @ [LF] @ ''BenchmarkFoo     12'' @ [LF])
       = [''benchmark      iter'', ''BenchmarkFoo     12'', []]
   \<and> \<not> benchLineMatcher ''benchmark      iter''
   \<and> \<not> benchLineMatcher ''BenchmarkFoo     12''"
    using T e f c by simp
  ultimately show ?thesis using ParseLine_sample_line by simp
qed

section \<open>The smallest time and the unit\<close>

lemma flt_trans: "flt a b \<Longrightarrow> flt b c \<Longrightarrow> flt a c"
  by (auto simp: flt_def)

lemma flt_asym: "flt a b \<Longrightarrow> \<not> flt b a"
  by (auto simp: flt_def)

lemma flt_not_NaN: "flt a b \<Longrightarrow> a \<noteq> NaN \<and> b \<noteq> NaN"
  by (simp add: flt_def)

lemma fle_iff_not_flt: "a \<noteq> NaN \<Longrightarrow> b \<noteq> NaN \<Longrightarrow> fle a b = (\<not> flt b a)"
  by (auto simp: fle_def flt_def)

lemma fle_not_flt: "fle a b \<Longrightarrow> \<not> flt b a"
  by (auto simp: fle_def flt_def)

lemma fle_flt_trans: "fle a b \<Longrightarrow> flt b c \<Longrightarrow> flt a c"
  by (auto simp: fle_def flt_def)

lemma flt_fle_trans: "flt a b \<Longrightarrow> fle b c \<Longrightarrow> flt a c"
  by (auto simp: fle_def flt_def)

lemma fold_smaller_mem:
  "foldl smaller s ls = s \<or> foldl smaller s ls \<in> NsPerOp ` set ls"
proof (induction ls arbitrary: s)
  case Nil
  then show ?case by simp
next
  case (Cons l ls)
  from Cons [of "smaller s l"] show ?case
    by (auto simp: smaller_def split: if_splits)
qed

lemma fold_smaller_below:
  "foldl smaller s ls = s \<or> flt (foldl smaller s ls) s"
proof (induction ls arbitrary: s)
  case Nil
  then show ?case by simp
next
  case (Cons l ls)
  show ?case
  proof (cases "flt (NsPerOp l) s")
    case True
    with Cons [of "NsPerOp l"] show ?thesis by (auto simp: smaller_def intro: flt_trans)
  next
    case False
    with Cons [of s] show ?thesis by (simp add: smaller_def)
  qed
qed

lemma fold_smaller_minimal:
  "\<not> flt s (foldl smaller s ls) \<and> (\<forall>l \<in> set ls. \<not> flt (NsPerOp l) (foldl smaller s ls))"
proof (induction ls arbitrary: s)
  case Nil
  then show ?case by (simp add: flt_def)
next
  case (Cons l ls)
  let ?s' = "smaller s l"
  let ?r = "foldl smaller ?s' ls"
  have ih: "\<not> flt ?s' ?r" "\<forall>l \<in> set ls. \<not> flt (NsPerOp l) ?r"
    using Cons [of ?s'] by simp_all
  have below: "?r = ?s' \<or> flt ?r ?s'" by (rule fold_smaller_below)
  have "\<not> flt s ?r \<and> \<not> flt (NsPerOp l) ?r"
  proof (cases "flt (NsPerOp l) s")
    case True
    then have s': "?s' = NsPerOp l" by (simp add: smaller_def)
    have "\<not> flt s ?r"
    proof
      assume a: "flt s ?r"
      from below s' have "?r = NsPerOp l \<or> flt ?r (NsPerOp l)" by simp
      then have "flt s (NsPerOp l)" using a by (auto intro: flt_trans)
      with True show False by (auto dest: flt_asym)
    qed
    with ih(1) s' show ?thesis by simp
  next
    case False
    then have s': "?s' = s" by (simp add: smaller_def)
    have "\<not> flt (NsPerOp l) ?r"
    proof
      assume a: "flt (NsPerOp l) ?r"
      from below s' have "?r = s \<or> flt ?r s" by simp
      then have "flt (NsPerOp l) s" using a by (auto intro: flt_trans)
      with False show False by simp
    qed
    with ih(1) s' show ?thesis by simp
  qed
  with ih(2) show ?case by simp
qed

lemma smallest_mem: "smallest first rest \<in> NsPerOp ` set (first # rest)"
  using fold_smaller_mem [of "NsPerOp first" rest] by (auto simp: smallest_def)

lemma smallest_minimal: "\<forall>l \<in> set (first # rest). \<not> flt (NsPerOp l) (smallest first rest)"
  using fold_smaller_minimal [of "NsPerOp first" rest] by (simp add: smallest_def)

lemma smallest_least:
  assumes "\<forall>l \<in> set (first # rest). NsPerOp l \<noteq> NaN"
  shows "\<forall>l \<in> set (first # rest). fle (smallest first rest) (NsPerOp l)"
proof
  fix l assume l: "l \<in> set (first # rest)"
  from smallest_mem [of first rest] assms have "smallest first rest \<noteq> NaN" by auto
  moreover from l assms have "NsPerOp l \<noteq> NaN" by blast
  moreover from l smallest_minimal have "\<not> flt (NsPerOp l) (smallest first rest)" by blast
  ultimately show "fle (smallest first rest) (NsPerOp l)" by (simp add: fle_iff_not_flt)
qed


lemma select_unit_cases:
  "(flt s (Finite 10000) \<longrightarrow> select_unit s = Nanoseconds)
   \<and> (fle (Finite 10000) s \<and> flt s (Finite 1000000) \<longrightarrow> select_unit s = Microseconds)
   \<and> (fle (Finite 1000000) s \<and> flt s (Finite 10000000000) \<longrightarrow> select_unit s = Milliseconds)
   \<and> (\<not> flt s (Finite 10000) \<and> \<not> (fle (Finite 10000) s \<and> flt s (Finite 1000000))
        \<and> \<not> (fle (Finite 1000000) s \<and> flt s (Finite 10000000000)) \<longrightarrow> select_unit s = Seconds)"
  by (auto simp: select_unit_def fle_def flt_def)

text \<open>
  For a group with at least one line, let \<open>s\<close> be the value the loop of
  \<^verbatim>\<open>TimeFormatFunc\<close> ends with. It is the time of a line of the group and no line has a
  smaller time; when no time of the group is a NaN it is below or equal to every time of
  the group. The function returned prints nanoseconds as they are when \<open>s < 10000\<close>,
  divides by \<open>1000\<close> when \<open>10000 \<le> s < 1000000\<close>, by \<open>1000000\<close> when
  \<open>1000000 \<le> s < 10000000000\<close>, and by \<open>1000000000\<close> otherwise, each time with the verb
  \<^verbatim>\<open>%.2f\<close> and the suffix of the unit; and the third cell of the data row of every
  line of the group is this one function applied to the time of the line.
\<close>

lemma time_format_by_loop_result:
  assumes "Lines g = first # rest" and "s = smallest first rest"
  shows "s \<in> NsPerOp ` set (Lines g)
    \<and> (\<forall>l \<in> set (Lines g). \<not> flt (NsPerOp l) s)
    \<and> ((\<forall>l \<in> set (Lines g). NsPerOp l \<noteq> NaN) \<longrightarrow> (\<forall>l \<in> set (Lines g). fle s (NsPerOp l)))
    \<and> (\<exists>f t. TimeFormatFunc L g = Inr f \<and> tabulate L g (columnNames g) = Inr t
         \<and> (flt s (Finite 10000) \<longrightarrow> f = (\<lambda>ns. Sprintf_2f L ns @ '' ns/op''))
         \<and> (fle (Finite 10000) s \<and> flt s (Finite 1000000)
              \<longrightarrow> f = (\<lambda>ns. Sprintf_2f L (fdiv L ns (Finite 1000))
                                @ [CHR 0x20, CHR 0xCE, CHR 0xBC] @ ''s/op''))
         \<and> (fle (Finite 1000000) s \<and> flt s (Finite 10000000000)
              \<longrightarrow> f = (\<lambda>ns. Sprintf_2f L (fdiv L ns (Finite 1000000)) @ '' ms/op''))
         \<and> (\<not> flt s (Finite 10000) \<and> \<not> (fle (Finite 10000) s \<and> flt s (Finite 1000000))
             \<and> \<not> (fle (Finite 1000000) s \<and> flt s (Finite 10000000000))
              \<longrightarrow> f = (\<lambda>ns. Sprintf_2f L (fdiv L ns (Finite 1000000000)) @ '' s/op''))
         \<and> (\<forall>i < length (Lines g). Cells t ! (i + 2) ! 2 = f (NsPerOp (Lines g ! i))))"
proof -
  let ?f = "format_time L (select_unit s)"
  let ?t = "\<lparr>MaxLengths = [],
           Cells = [columnNames g, underlines (columnNames g)] @ map (table_row L g ?f) (Lines g)\<rparr>"
  have m: "s \<in> NsPerOp ` set (Lines g)"
    using smallest_mem [of first rest] assms by simp
  have mi: "\<forall>l \<in> set (Lines g). \<not> flt (NsPerOp l) s"
    using smallest_minimal [of first rest] assms by simp
  have le: "(\<forall>l \<in> set (Lines g). NsPerOp l \<noteq> NaN) \<longrightarrow> (\<forall>l \<in> set (Lines g). fle s (NsPerOp l))"
    using smallest_least [of first rest] assms by simp
  have tf: "TimeFormatFunc L g = Inr ?f"
    using assms by (simp add: TimeFormatFunc_def)
  have tb: "tabulate L g (columnNames g) = Inr ?t"
    using tabulate_nonempty [OF assms(1), of L "columnNames g"] assms(2) by simp
  have u1: "flt s (Finite 10000) \<longrightarrow> ?f = (\<lambda>ns. Sprintf_2f L ns @ '' ns/op'')"
    using select_unit_cases [of s] by (auto simp: fun_eq_iff)
  have u2: "fle (Finite 10000) s \<and> flt s (Finite 1000000)
              \<longrightarrow> ?f = (\<lambda>ns. Sprintf_2f L (fdiv L ns (Finite 1000))
                                @ [CHR 0x20, CHR 0xCE, CHR 0xBC] @ ''s/op'')"
    using select_unit_cases [of s] by (auto simp: fun_eq_iff)
  have u3: "fle (Finite 1000000) s \<and> flt s (Finite 10000000000)
              \<longrightarrow> ?f = (\<lambda>ns. Sprintf_2f L (fdiv L ns (Finite 1000000)) @ '' ms/op'')"
    using select_unit_cases [of s] by (auto simp: fun_eq_iff)
  have u4: "\<not> flt s (Finite 10000) \<and> \<not> (fle (Finite 10000) s \<and> flt s (Finite 1000000))
             \<and> \<not> (fle (Finite 1000000) s \<and> flt s (Finite 10000000000))
              \<longrightarrow> ?f = (\<lambda>ns. Sprintf_2f L (fdiv L ns (Finite 1000000000)) @ '' s/op'')"
    using select_unit_cases [of s] by (auto simp: fun_eq_iff)
  have cells: "\<forall>i < length (Lines g). Cells ?t ! (i + 2) ! 2 = ?f (NsPerOp (Lines g ! i))"
    by (simp add: table_row_def)
  have "TimeFormatFunc L g = Inr ?f \<and> tabulate L g (columnNames g) = Inr ?t
         \<and> (flt s (Finite 10000) \<longrightarrow> ?f = (\<lambda>ns. Sprintf_2f L ns @ '' ns/op''))
         \<and> (fle (Finite 10000) s \<and> flt s (Finite 1000000)
              \<longrightarrow> ?f = (\<lambda>ns. Sprintf_2f L (fdiv L ns (Finite 1000))
                                @ [CHR 0x20, CHR 0xCE, CHR 0xBC] @ ''s/op''))
         \<and> (fle (Finite 1000000) s \<and> flt s (Finite 10000000000)
              \<longrightarrow> ?f = (\<lambda>ns. Sprintf_2f L (fdiv L ns (Finite 1000000)) @ '' ms/op''))
         \<and> (\<not> flt s (Finite 10000) \<and> \<not> (fle (Finite 10000) s \<and> flt s (Finite 1000000))
             \<and> \<not> (fle (Finite 1000000) s \<and> flt s (Finite 10000000000))
              \<longrightarrow> ?f = (\<lambda>ns. Sprintf_2f L (fdiv L ns (Finite 1000000000)) @ '' s/op''))
         \<and> (\<forall>i < length (Lines g). Cells ?t ! (i + 2) ! 2 = ?f (NsPerOp (Lines g ! i)))"
    by (intro conjI tf tb u1 u2 u3 u4 cells)
  then have "\<exists>f t. TimeFormatFunc L g = Inr f \<and> tabulate L g (columnNames g) = Inr t
         \<and> (flt s (Finite 10000) \<longrightarrow> f = (\<lambda>ns. Sprintf_2f L ns @ '' ns/op''))
         \<and> (fle (Finite 10000) s \<and> flt s (Finite 1000000)
              \<longrightarrow> f = (\<lambda>ns. Sprintf_2f L (fdiv L ns (Finite 1000))
                                @ [CHR 0x20, CHR 0xCE, CHR 0xBC] @ ''s/op''))
         \<and> (fle (Finite 1000000) s \<and> flt s (Finite 10000000000)
              \<longrightarrow> f = (\<lambda>ns. Sprintf_2f L (fdiv L ns (Finite 1000000)) @ '' ms/op''))
         \<and> (\<not> flt s (Finite 10000) \<and> \<not> (fle (Finite 10000) s \<and> flt s (Finite 1000000))
             \<and> \<not> (fle (Finite 1000000) s \<and> flt s (Finite 10000000000))
              \<longrightarrow> f = (\<lambda>ns. Sprintf_2f L (fdiv L ns (Finite 1000000000)) @ '' s/op''))
         \<and> (\<forall>i < length (Lines g). Cells t ! (i + 2) ! 2 = f (NsPerOp (Lines g ! i)))"
    by (intro exI [of _ ?f] exI [of _ ?t])
  with m mi le show ?thesis by (intro conjI)
qed

lemma Sprintf_120: "Sprintf_2f sample_lib (Finite 120) = ''120.00''"
  by (simp add: sample_lib_def round_half_even_def two_digits_def show_nat_def show_nat_go.simps
      digit_char_def)

lemma smallest_sample_group: "smallest sample_record [] = Finite 120"
  by (simp add: smallest_def sample_record_def)

lemma smallest_sample_group_two: "smallest sample_record_slow [sample_record_mid] = Finite 20000"
  by (simp add: smallest_def smaller_def sample_record_slow_def sample_record_mid_def flt_def)

lemma Sprintf_20: "Sprintf_2f sample_lib (fdiv sample_lib (Finite 20000) (Finite 1000)) = ''20.00''"
  by (simp add: sample_lib_def round_half_even_def two_digits_def show_nat_def show_nat_go.simps
      digit_char_def)

lemma Sprintf_3000: "Sprintf_2f sample_lib (fdiv sample_lib (Finite 3000000) (Finite 1000)) = ''3000.00''"
  by (simp add: sample_lib_def round_half_even_def two_digits_def show_nat_def show_nat_go.simps
      digit_char_def)

lemma Fields_nan_line: "Fields nan_line = [''BenchmarkNaN'', ''1'', ''NaN'', ''ns/op'']"
  by (simp add: Fields_def nan_line_def ascii_space_def)

lemma Fields_five_line: "Fields five_line = [''BenchmarkFive'', ''1'', ''5'', ''ns/op'']"
  by (simp add: Fields_def five_line_def ascii_space_def)

lemma ParseLine_nan_line: "ParseLine nan_lib nan_line = Inr nan_record"
proof -
  have "benchLineMatcher nan_line"
    by (simp add: benchLineMatcher_def nan_line_def is_digit_def)
  moreover have "3 \<le> length (Split_on TAB nan_line)" by (simp add: nan_line_def)
  moreover have "bench_ParseLine nan_lib nan_line = Inr nan_record"
    by (simp add: bench_ParseLine_def Fields_nan_line HasPrefix_def Atoi_def is_digit_def
        dec_val_def parse_pairs_def parseMeasurement_def new_Benchmark_def nan_lib_def
        nan_record_def NsPerOp_flag_def upt_rec [of _ "numeral n" for n])
  ultimately show ?thesis by (simp add: ParseLine_def)
qed

lemma ParseLine_five_line: "ParseLine nan_lib five_line = Inr five_record"
proof -
  have "benchLineMatcher five_line"
    by (simp add: benchLineMatcher_def five_line_def is_digit_def)
  moreover have "3 \<le> length (Split_on TAB five_line)" by (simp add: five_line_def)
  moreover have "bench_ParseLine nan_lib five_line = Inr five_record"
    by (simp add: bench_ParseLine_def Fields_five_line HasPrefix_def Atoi_def is_digit_def
        dec_val_def parse_pairs_def parseMeasurement_def new_Benchmark_def nan_lib_def
        sample_ParseFloat_def five_record_def NsPerOp_flag_def upt_rec [of _ "numeral n" for n])
  ultimately show ?thesis by (simp add: ParseLine_def)
qed

text \<open>
  C1, as stated: for every non-empty group the unit is chosen from the minimum time of the
  group's records. The lines \<open>nan_line\<close> and \<open>five_line\<close> parse to a record with the time
  NaN and one with the time 5. Read in this order they make a group for which the loop
  ends with NaN and the unit is seconds, though 5 is below 10000 and NaN is not below or
  equal to 5; read in the other order they make a group of the same records for which the
  loop ends with 5 and the unit is nanoseconds. So the unit is not given by the records of
  the group alone, whatever the minimum of a NaN and a number is taken to be.
\<close>

theorem time_unit_counterexample:
  "ParseLine nan_lib nan_line = Inr nan_record
   \<and> ParseLine nan_lib five_line = Inr five_record
   \<and> fst (run_lines nan_lib False [nan_line, five_line]) = nan_first_group
   \<and> fst (run_lines nan_lib False [five_line, nan_line]) = nan_last_group
   \<and> set (Lines nan_first_group) = set (Lines nan_last_group)
   \<and> smallest nan_record [five_record] = NaN
   \<and> smallest five_record [nan_record] = Finite 5
   \<and> chosen_unit nan_first_group = Some Seconds
   \<and> chosen_unit nan_last_group = Some Nanoseconds
   \<and> TimeFormatFunc nan_lib nan_first_group = Inr (format_time nan_lib Seconds)
   \<and> TimeFormatFunc nan_lib nan_last_group = Inr (format_time nan_lib Nanoseconds)
   \<and> NsPerOp five_record = Finite 5 \<and> flt (Finite 5) (Finite 10000)
   \<and> \<not> fle NaN (Finite 5)"
proof -
  have r1: "fst (run_lines nan_lib False [nan_line, five_line]) = nan_first_group"
    by (simp add: run_lines_def step_def ParseLine_nan_line ParseLine_five_line AddLine_def
        new_group_def nan_first_group_def)
       (simp add: nan_record_def five_record_def)
  have r2: "fst (run_lines nan_lib False [five_line, nan_line]) = nan_last_group"
    by (simp add: run_lines_def step_def ParseLine_nan_line ParseLine_five_line AddLine_def
        new_group_def nan_last_group_def)
       (simp add: nan_record_def five_record_def)
  have st: "set (Lines nan_first_group) = set (Lines nan_last_group)"
    by (auto simp: nan_first_group_def nan_last_group_def)
  have n: "NsPerOp nan_record = NaN" "NsPerOp five_record = Finite 5"
    by (simp_all add: nan_record_def five_record_def)
  have s1: "smallest nan_record [five_record] = NaN"
    by (simp add: smallest_def smaller_def n flt_def)
  have s2: "smallest five_record [nan_record] = Finite 5"
    by (simp add: smallest_def smaller_def n flt_def)
  have u1: "select_unit NaN = Seconds" by (simp add: select_unit_def flt_def)
  have u2: "select_unit (Finite 5) = Nanoseconds" by (simp add: select_unit_def flt_def)
  have c1: "chosen_unit nan_first_group = Some Seconds"
    by (simp add: chosen_unit_def nan_first_group_def s1 u1)
  have c2: "chosen_unit nan_last_group = Some Nanoseconds"
    by (simp add: chosen_unit_def nan_last_group_def s2 u2)
  have t1: "TimeFormatFunc nan_lib nan_first_group = Inr (format_time nan_lib Seconds)"
    by (simp add: TimeFormatFunc_def nan_first_group_def s1 u1)
  have t2: "TimeFormatFunc nan_lib nan_last_group = Inr (format_time nan_lib Nanoseconds)"
    by (simp add: TimeFormatFunc_def nan_last_group_def s2 u2)
  have f: "flt (Finite 5) (Finite 10000)" "\<not> fle NaN (Finite 5)"
    by (simp_all add: flt_def fle_def)
  show ?thesis
    by (intro conjI ParseLine_nan_line ParseLine_five_line r1 r2 st s1 s2 c1 c2 t1 t2 n(2) f)
qed

text \<open>
  C1, amended: for every non-empty group in which no time is a NaN, let \<open>s\<close> be the value
  the loop of \<^verbatim>\<open>TimeFormatFunc\<close> ends with. It is the minimum of the times of the
  group: the time of a line, and below or equal to the time of every line. The function
  returned prints nanoseconds as they are when \<open>s < 10000\<close>, divides by \<open>1000\<close> when
  \<open>10000 \<le> s < 1000000\<close>, by \<open>1000000\<close> when \<open>1000000 \<le> s < 10000000000\<close>, and by
  \<open>1000000000\<close> otherwise, each time with the verb \<^verbatim>\<open>%.2f\<close> and the suffix of the unit;
  and the third cell of the data row of every line of the group is this one function
  applied to the time of the line.
\<close>

theorem time_unit_by_minimum:
  assumes "Lines g = first # rest" and "\<forall>l \<in> set (Lines g). NsPerOp l \<noteq> NaN"
    and "s = smallest first rest"
  shows "s \<in> NsPerOp ` set (Lines g)
    \<and> (\<forall>l \<in> set (Lines g). fle s (NsPerOp l))
    \<and> (\<exists>f t. TimeFormatFunc L g = Inr f \<and> tabulate L g (columnNames g) = Inr t
         \<and> (flt s (Finite 10000) \<longrightarrow> f = (\<lambda>ns. Sprintf_2f L ns @ '' ns/op''))
         \<and> (fle (Finite 10000) s \<and> flt s (Finite 1000000)
              \<longrightarrow> f = (\<lambda>ns. Sprintf_2f L (fdiv L ns (Finite 1000))
                                @ [CHR 0x20, CHR 0xCE, CHR 0xBC] @ ''s/op''))
         \<and> (fle (Finite 1000000) s \<and> flt s (Finite 10000000000)
              \<longrightarrow> f = (\<lambda>ns. Sprintf_2f L (fdiv L ns (Finite 1000000)) @ '' ms/op''))
         \<and> (\<not> flt s (Finite 10000) \<and> \<not> (fle (Finite 10000) s \<and> flt s (Finite 1000000))
             \<and> \<not> (fle (Finite 1000000) s \<and> flt s (Finite 10000000000))
              \<longrightarrow> f = (\<lambda>ns. Sprintf_2f L (fdiv L ns (Finite 1000000000)) @ '' s/op''))
         \<and> (\<forall>i < length (Lines g). Cells t ! (i + 2) ! 2 = f (NsPerOp (Lines g ! i))))"
proof -
  note T = time_format_by_loop_result [OF assms(1,3), of L]
  from T have a: "s \<in> NsPerOp ` set (Lines g)" by (rule conjunct1)
  from T have "(\<forall>l \<in> set (Lines g). NsPerOp l \<noteq> NaN) \<longrightarrow> (\<forall>l \<in> set (Lines g). fle s (NsPerOp l))"
    by (rule conjunct2 [THEN conjunct2, THEN conjunct1])
  with assms(2) have b: "\<forall>l \<in> set (Lines g). fle s (NsPerOp l)" by (rule rev_mp)
  note c = T [THEN conjunct2, THEN conjunct2, THEN conjunct2]
  from a b c show ?thesis by (intro conjI)
qed

theorem time_unit_by_minimum_witness:
  "Lines sample_group_two = sample_record_slow # [sample_record_mid]
   \<and> NsPerOp sample_record_slow \<noteq> NaN \<and> NsPerOp sample_record_mid \<noteq> NaN
   \<and> Finite 20000 = smallest sample_record_slow [sample_record_mid]
   \<and> fle (Finite 10000) (Finite 20000) \<and> flt (Finite 20000) (Finite 1000000)
   \<and> Finite 20000 \<in> NsPerOp ` set (Lines sample_group_two)
   \<and> fle (Finite 20000) (NsPerOp sample_record_slow)
   \<and> fle (Finite 20000) (NsPerOp sample_record_mid)
   \<and> (\<exists>f t. TimeFormatFunc sample_lib sample_group_two = Inr f
         \<and> tabulate sample_lib sample_group_two (columnNames sample_group_two) = Inr t
         \<and> f = (\<lambda>ns. Sprintf_2f sample_lib (fdiv sample_lib ns (Finite 1000))
                       @ [CHR 0x20, CHR 0xCE, CHR 0xBC] @ ''s/op'')
         \<and> Cells t ! 2 ! 2 = ''3000.00'' @ [CHR 0x20, CHR 0xCE, CHR 0xBC] @ ''s/op''
         \<and> Cells t ! 3 ! 2 = ''20.00'' @ [CHR 0x20, CHR 0xCE, CHR 0xBC] @ ''s/op'')"
proof -
  have l: "Lines sample_group_two = sample_record_slow # [sample_record_mid]"
    by (simp add: sample_group_two_def)
  have s: "Finite 20000 = smallest sample_record_slow [sample_record_mid]"
    by (simp add: smallest_sample_group_two)
  have c: "fle (Finite 10000) (Finite 20000)" "flt (Finite 20000) (Finite 1000000)"
    by (simp_all add: fle_def flt_def)
  have n: "NsPerOp sample_record_slow = Finite 3000000" "NsPerOp sample_record_mid = Finite 20000"
    by (simp_all add: sample_record_slow_def sample_record_mid_def)
  have nn: "NsPerOp sample_record_slow \<noteq> NaN" "NsPerOp sample_record_mid \<noteq> NaN"
    by (simp_all add: n)
  have h: "\<forall>l \<in> set (Lines sample_group_two). NsPerOp l \<noteq> NaN"
    using nn by (simp add: l)
  note T = time_unit_by_minimum [OF l h s, of sample_lib]
  from T have m: "Finite 20000 \<in> NsPerOp ` set (Lines sample_group_two)" by (rule conjunct1)
  from T have "\<forall>l \<in> set (Lines sample_group_two). fle (Finite 20000) (NsPerOp l)"
    by (rule conjunct2 [THEN conjunct1])
  then have le: "fle (Finite 20000) (NsPerOp sample_record_slow)"
    "fle (Finite 20000) (NsPerOp sample_record_mid)"
    by (simp_all add: l)
  from T [THEN conjunct2, THEN conjunct2]
  have e: "\<exists>f t. TimeFormatFunc sample_lib sample_group_two = Inr f
         \<and> tabulate sample_lib sample_group_two (columnNames sample_group_two) = Inr t
         \<and> f = (\<lambda>ns. Sprintf_2f sample_lib (fdiv sample_lib ns (Finite 1000))
                       @ [CHR 0x20, CHR 0xCE, CHR 0xBC] @ ''s/op'')
         \<and> Cells t ! 2 ! 2 = ''3000.00'' @ [CHR 0x20, CHR 0xCE, CHR 0xBC] @ ''s/op''
         \<and> Cells t ! 3 ! 2 = ''20.00'' @ [CHR 0x20, CHR 0xCE, CHR 0xBC] @ ''s/op''"
  proof (elim conjE exE)
    fix f t
    assume tf: "TimeFormatFunc sample_lib sample_group_two = Inr f"
      and tb: "tabulate sample_lib sample_group_two (columnNames sample_group_two) = Inr t"
      and u: "fle (Finite 10000) (Finite 20000) \<and> flt (Finite 20000) (Finite 1000000)
              \<longrightarrow> f = (\<lambda>ns. Sprintf_2f sample_lib (fdiv sample_lib ns (Finite 1000))
                                @ [CHR 0x20, CHR 0xCE, CHR 0xBC] @ ''s/op'')"
      and cl: "\<forall>i < length (Lines sample_group_two).
                 Cells t ! (i + 2) ! 2 = f (NsPerOp (Lines sample_group_two ! i))"
    from u c have f: "f = (\<lambda>ns. Sprintf_2f sample_lib (fdiv sample_lib ns (Finite 1000))
                                @ [CHR 0x20, CHR 0xCE, CHR 0xBC] @ ''s/op'')" by simp
    from cl [rule_format, of 0] cl [rule_format, of 1]
    have "Cells t ! 2 ! 2 = ''3000.00'' @ [CHR 0x20, CHR 0xCE, CHR 0xBC] @ ''s/op''"
      "Cells t ! 3 ! 2 = ''20.00'' @ [CHR 0x20, CHR 0xCE, CHR 0xBC] @ ''s/op''"
      by (simp_all add: l n f Sprintf_20 Sprintf_3000 numeral_2_eq_2 numeral_3_eq_3)
    with tf tb f show ?thesis by blast
  qed
  show ?thesis by (intro conjI l nn s c m le e)
qed

section \<open>The unit is monotone in the smallest time\<close>

lemma select_unit_mono: "flt a b \<Longrightarrow> unit_rank (select_unit a) \<le> unit_rank (select_unit b)"
  by (cases a; cases b) (auto simp: select_unit_def flt_def)

lemma fold_smaller_NaN: "foldl smaller NaN ls = NaN"
  by (induction ls) (simp_all add: smaller_def flt_def)

lemma fold_smaller_not_NaN: "s \<noteq> NaN \<Longrightarrow> foldl smaller s ls \<noteq> NaN"
proof (induction ls arbitrary: s)
  case Nil
  then show ?case by simp
next
  case (Cons l ls)
  have "smaller s l \<noteq> NaN"
    using Cons.prems by (auto simp: smaller_def dest: flt_not_NaN)
  from Cons.IH [OF this] show ?case by simp
qed

lemma smallest_NaN_iff: "(smallest first rest = NaN) = (NsPerOp first = NaN)"
  using fold_smaller_NaN [of rest] fold_smaller_not_NaN [of "NsPerOp first" rest]
  by (auto simp: smallest_def)

lemma smallest_after_replace:
  assumes xs: "xs = first # rest" and i: "i < length xs"
    and v: "flt v (smallest first rest)"
    and xs': "xs[i := (xs ! i)\<lparr>NsPerOp := v\<rparr>] = first' # rest'"
  shows "smallest first' rest' = v"
proof -
  let ?r = "smallest first rest" and ?r' = "smallest first' rest'"
  let ?y = "(xs ! i)\<lparr>NsPerOp := v\<rparr>"
  from v have vn: "v \<noteq> NaN" and rn: "?r \<noteq> NaN" by (auto dest: flt_not_NaN)
  from rn have fn: "NsPerOp first \<noteq> NaN" by (simp add: smallest_NaN_iff)
  have "NsPerOp first' \<noteq> NaN"
  proof (cases i)
    case 0
    with xs xs' have "first' = first\<lparr>NsPerOp := v\<rparr>" by simp
    with vn show ?thesis by simp
  next
    case (Suc j)
    with xs xs' have "first' = first" by simp
    with fn show ?thesis by simp
  qed
  then have r'n: "?r' \<noteq> NaN" by (simp add: smallest_NaN_iff)
  have "?y \<in> set (first' # rest')"
    using i xs' [symmetric] by (simp add: set_update_memI)
  with smallest_minimal [of first' rest'] have nv: "\<not> flt v ?r'" by fastforce
  from smallest_mem [of first' rest'] obtain l where l: "l \<in> set (first' # rest')"
    and rl: "?r' = NsPerOp l" by auto
  from l xs' have "l \<in> set (xs[i := ?y])" by simp
  then have "l = ?y \<or> l \<in> set xs" using set_update_subset_insert [of xs i ?y] by auto
  then show ?thesis
  proof
    assume "l = ?y"
    with rl show ?thesis by simp
  next
    assume "l \<in> set xs"
    with smallest_minimal [of first rest] xs have "\<not> flt (NsPerOp l) ?r" by blast
    with rl rn r'n have "fle ?r ?r'" by (simp add: fle_iff_not_flt)
    with v have "flt v ?r'" by (rule flt_fle_trans)
    with nv show ?thesis by simp
  qed
qed

text \<open>
  C6. In a group with at least one line, let a line whose time is the smallest of the group
  get a time \<open>v\<close> that is not negative and strictly smaller. Then the unit chosen for
  the new group is the one selected by \<open>v\<close>, and it is the unit chosen before or a
  finer one; \<^verbatim>\<open>TimeFormatFunc\<close> returns the functions of these two units.
\<close>

theorem unit_selection_monotone:
  assumes "Lines g = first # rest" and "i < length (Lines g)"
    and "NsPerOp (Lines g ! i) = smallest first rest"
    and "fle (Finite 0) v" and "flt v (smallest first rest)"
  shows "\<exists>u u'. chosen_unit g = Some u \<and> chosen_unit (replace_time g i v) = Some u'
           \<and> unit_rank u' \<le> unit_rank u
           \<and> u = select_unit (smallest first rest) \<and> u' = select_unit v
           \<and> TimeFormatFunc L g = Inr (format_time L u)
           \<and> TimeFormatFunc L (replace_time g i v) = Inr (format_time L u')"
proof -
  define xs' where "xs' = (Lines g)[i := (Lines g ! i)\<lparr>NsPerOp := v\<rparr>]"
  have "length xs' = length (Lines g)"
    unfolding xs'_def by (rule length_list_update)
  then have "length xs' = Suc (length rest)"
    by (simp only: assms(1) list.size(4))
  then obtain first' rest' where "xs' = first' # rest'"
    by (auto simp: length_Suc_conv)
  then have xs': "(Lines g)[i := (Lines g ! i)\<lparr>NsPerOp := v\<rparr>] = first' # rest'"
    by (simp only: xs'_def)
  have s': "smallest first' rest' = v"
    using smallest_after_replace [OF assms(1,2,5) xs'] .
  have u: "chosen_unit g = Some (select_unit (smallest first rest))"
    using assms(1) by (simp add: chosen_unit_def)
  have u': "chosen_unit (replace_time g i v) = Some (select_unit v)"
    using xs' s' by (simp add: chosen_unit_def replace_time_def)
  have r: "unit_rank (select_unit v) \<le> unit_rank (select_unit (smallest first rest))"
    using assms(5) by (rule select_unit_mono)
  have t: "TimeFormatFunc L g = Inr (format_time L (select_unit (smallest first rest)))"
    using assms(1) by (simp add: TimeFormatFunc_def)
  have t': "TimeFormatFunc L (replace_time g i v) = Inr (format_time L (select_unit v))"
    using xs' s' by (simp add: TimeFormatFunc_def replace_time_def)
  from u u' r t t' show ?thesis by simp
qed

theorem unit_selection_monotone_witness:
  "Lines sample_group_two = sample_record_slow # [sample_record_mid]
   \<and> 1 < length (Lines sample_group_two)
   \<and> NsPerOp (Lines sample_group_two ! 1) = smallest sample_record_slow [sample_record_mid]
   \<and> fle (Finite 0) (Finite 5000)
   \<and> flt (Finite 5000) (smallest sample_record_slow [sample_record_mid])
   \<and> chosen_unit sample_group_two = Some Microseconds
   \<and> chosen_unit (replace_time sample_group_two 1 (Finite 5000)) = Some Nanoseconds
   \<and> unit_rank Nanoseconds \<le> unit_rank Microseconds"
proof -
  have l: "Lines sample_group_two = sample_record_slow # [sample_record_mid]"
    by (simp add: sample_group_two_def)
  have i: "1 < length (Lines sample_group_two)" by (simp add: l)
  have n: "NsPerOp (Lines sample_group_two ! 1) = smallest sample_record_slow [sample_record_mid]"
    by (simp add: l smallest_sample_group_two) (simp add: sample_record_mid_def)
  have z: "fle (Finite 0) (Finite 5000)" by (simp add: fle_def)
  have v: "flt (Finite 5000) (smallest sample_record_slow [sample_record_mid])"
    by (simp add: smallest_sample_group_two flt_def)
  have u: "select_unit (smallest sample_record_slow [sample_record_mid]) = Microseconds"
    by (simp add: smallest_sample_group_two select_unit_def flt_def)
  have u': "select_unit (Finite 5000) = Nanoseconds"
    by (simp add: select_unit_def flt_def)
  from unit_selection_monotone [OF l i n z v, of sample_lib]
  have "chosen_unit sample_group_two = Some Microseconds
   \<and> chosen_unit (replace_time sample_group_two 1 (Finite 5000)) = Some Nanoseconds
   \<and> unit_rank Nanoseconds \<le> unit_rank Microseconds"
    by (auto simp: u u')
  with l i n z v show ?thesis by (intro conjI) simp_all
qed

end
